theory Spec2Isabelle
  imports Complex_Main "HOL-Library.Multiset"
begin

section \<open>Table reconstruction of \<open>backend/services/advanced_ocr.py\<close>\<close>

text \<open>
  The development embeds the reconstruction core of class \<open>AdvancedOCR\<close>:
  \<open>detect_table_structure\<close> (row clustering, column clustering, realignment),
  \<open>clean_and_normalize_data\<close> and the orchestration \<open>extract_table_from_image\<close>.

  Numbers. Pixel coordinates are Python integers (\<open>int\<close>). The source computes medians
  and thresholds with numpy in binary floating point; here they are rationals. On
  pixel-scale coordinates the two agree in every comparison the code makes: a median of
  integers is an integer or a half-integer, the column threshold doubles it, and the row
  threshold \<open>median * 1.3\<close> is only compared, after clamping to \<open>[15, 50]\<close>, with an integer
  distance, from which its exact value differs by a multiple of \<open>1/20\<close> unless it is that
  integer itself, in which case the float product is that integer as well. Confidences
  and clock readings are floats in the source and rationals here; no statement below
  depends on their rounding.
\<close>

subsection \<open>Tokens\<close>

text \<open>A located word is the Python tuple \<open>(text, (y, x), confidence)\<close>.\<close>

type_synonym token = "string \<times> (int \<times> int) \<times> rat"

text \<open>An entry of \<open>current_row\<close> is the tuple \<open>(text, x, confidence)\<close>.\<close>

type_synonym item = "string \<times> int \<times> rat"

definition tok_text :: "token \<Rightarrow> string" where
  "tok_text tp = fst tp"

definition tok_y :: "token \<Rightarrow> int" where
  "tok_y tp = fst (fst (snd tp))"

definition tok_x :: "token \<Rightarrow> int" where
  "tok_x tp = snd (fst (snd tp))"

definition tok_conf :: "token \<Rightarrow> rat" where
  "tok_conf tp = snd (snd tp)"

definition tok_item :: "token \<Rightarrow> item" where
  "tok_item tp = (tok_text tp, tok_x tp, tok_conf tp)"

subsection \<open>Medians and gaps\<close>

text \<open>
  \<open>np.median\<close> of a list of integers: the middle element of the sorted list, or the mean
  of the two middle elements. Every call in the source is on a non-empty list (\<open>gaps\<close> and
  \<open>x_gaps\<close> are tested first, \<open>current_cluster\<close> always holds an element).
\<close>

definition median :: "int list \<Rightarrow> rat" where
  "median vs =
     (let s = sort vs; n = length s
      in if n mod 2 = 1 then of_int (s ! (n div 2))
         else (of_int (s ! (n div 2 - 1)) + of_int (s ! (n div 2))) / 2)"

text \<open>\<open>[v[i + 1] - v[i] for i in range(len(v) - 1)]\<close>\<close>

definition gaps_of :: "int list \<Rightarrow> int list" where
  "gaps_of vs = map (\<lambda>i. vs ! (i + 1) - vs ! i) [0..<length vs - 1]"

subsection \<open>Row clustering (lines 236--258)\<close>

definition y_threshold :: "token list \<Rightarrow> rat" where
  "y_threshold text_positions =
     (let ys = map tok_y text_positions;
          ys_sorted = sort ys;
          gaps = gaps_of ys_sorted;
          median_gap = (if gaps \<noteq> [] then median gaps else 30)
      in max 15 (min 50 (median_gap * (13 / 10))))"

text \<open>
  \<open>current_row.sort(key=lambda item: item[1])\<close> followed by
  \<open>[item[0] for item in current_row]\<close>. Python's sort is stable, as \<open>sort_key\<close> is.
\<close>

definition emit_row :: "item list \<Rightarrow> string list" where
  "emit_row current_row = map fst (sort_key (\<lambda>item. fst (snd item)) current_row)"

text \<open>
  The loop over \<open>text_positions\<close>, with its three variables \<open>rows\<close>, \<open>current_row\<close> and
  \<open>previous_y\<close> (\<open>None\<close> before the first token) passed along.
\<close>

fun group_rows ::
  "rat \<Rightarrow> token list \<Rightarrow> string list list \<Rightarrow> item list \<Rightarrow> int option
    \<Rightarrow> string list list \<times> item list" where
  "group_rows thr [] rows current_row previous_y = (rows, current_row)"
| "group_rows thr ((text, (y, x), confidence) # rest) rows current_row previous_y =
     (if previous_y = None \<or> of_int \<bar>y - the previous_y\<bar> < thr
      then group_rows thr rest rows (current_row @ [(text, x, confidence)]) (Some y)
      else group_rows thr rest
             (if current_row \<noteq> [] then rows @ [emit_row current_row] else rows)
             [(text, x, confidence)] (Some y))"

definition row_clustering :: "token list \<Rightarrow> string list list" where
  "row_clustering text_positions =
     (let y_thr = y_threshold text_positions;
          (rows, current_row) = group_rows y_thr text_positions [] [] None
      in if current_row \<noteq> [] then rows @ [emit_row current_row] else rows)"

text \<open>
  The specification's wording of the walk, for comparison with \<open>group_rows\<close>: a token
  starts a new row exactly when its \<open>y\<close> is at least the threshold away from the \<open>y\<close> of
  the token immediately before it; otherwise it joins that token's row.
\<close>

fun chained_rows_spec :: "rat \<Rightarrow> token list \<Rightarrow> token list list" where
  "chained_rows_spec thr [] = []"
| "chained_rows_spec thr [tp] = [[tp]]"
| "chained_rows_spec thr (tp # nxt # rest) =
     (if thr \<le> of_int \<bar>tok_y nxt - tok_y tp\<bar>
      then [tp] # chained_rows_spec thr (nxt # rest)
      else (case chained_rows_spec thr (nxt # rest) of
              [] \<Rightarrow> [[tp]]
            | r # rs \<Rightarrow> (tp # r) # rs))"

text \<open>
  The specification's wording of the threshold, for comparison with \<open>y_threshold\<close>: the
  consecutive gaps of the ascending-sorted values; their median, which is the middle
  value of the sorted gaps or the mean of the two middle values, and is undefined when
  there is no gap (default 30); the median times 1.3, clamped to \<open>[15, 50]\<close>. The middle
  of a sorted list is found by dropping its least and its greatest value until one or
  two values are left.
\<close>

fun consecutive_gaps_spec :: "int list \<Rightarrow> int list" where
  "consecutive_gaps_spec (a # b # vs) = (b - a) # consecutive_gaps_spec (b # vs)"
| "consecutive_gaps_spec vs = []"

function middle_spec :: "int list \<Rightarrow> rat option" where
  "middle_spec [] = None"
| "middle_spec [a] = Some (of_int a)"
| "middle_spec [a, b] = Some ((of_int a + of_int b) / 2)"
| "middle_spec (a # b # c # vs) = middle_spec (butlast (b # c # vs))"
  by pat_completeness auto
termination
  by (relation "measure length") simp_all

definition median_spec :: "int list \<Rightarrow> rat option" where
  "median_spec vs = middle_spec (sort vs)"

definition clamp_spec :: "rat \<Rightarrow> rat \<Rightarrow> rat \<Rightarrow> rat" where
  "clamp_spec lo hi v = (if v < lo then lo else if hi < v then hi else v)"

definition threshold_spec :: "int list \<Rightarrow> rat" where
  "threshold_spec ys =
     (let median_gap = (case median_spec (consecutive_gaps_spec (sort ys)) of
                          None \<Rightarrow> 30
                        | Some m \<Rightarrow> m)
      in clamp_spec 15 50 (median_gap * (13 / 10)))"

subsection \<open>Column clustering (lines 264--285)\<close>

text \<open>
  The loop \<open>for i in range(1, len(xs_sorted))\<close> with its variables \<open>column_clusters\<close> and
  \<open>current_cluster\<close>; \<open>current_cluster[-1]\<close> is the last element of a list that is never
  empty.
\<close>

fun cluster_loop :: "rat \<Rightarrow> int list \<Rightarrow> rat list \<Rightarrow> int list \<Rightarrow> rat list \<times> int list" where
  "cluster_loop col_gap_threshold [] column_clusters current_cluster =
     (column_clusters, current_cluster)"
| "cluster_loop col_gap_threshold (v # rest) column_clusters current_cluster =
     (if of_int (v - last current_cluster) < col_gap_threshold
      then cluster_loop col_gap_threshold rest column_clusters (current_cluster @ [v])
      else cluster_loop col_gap_threshold rest
             (column_clusters @ [median current_cluster]) [v])"

text \<open>
  The anchors of a list of \<open>x\<close> values, \<open>None\<close> where the source skips clustering
  (\<open>if xs and len(xs) > 1\<close>, \<open>if x_gaps\<close>).
\<close>

definition column_anchors :: "int list \<Rightarrow> rat list option" where
  "column_anchors xs =
     (if xs \<noteq> [] \<and> length xs > 1 then
        (let xs_sorted = sort xs;
             x_gaps = gaps_of xs_sorted
         in if x_gaps \<noteq> [] then
              (let median_x_gap = median x_gaps;
                   col_gap_threshold = max 20 (median_x_gap * 2);
                   (column_clusters, current_cluster) =
                      cluster_loop col_gap_threshold (drop 1 xs_sorted) [] [xs_sorted ! 0]
               in Some (if current_cluster \<noteq> []
                        then column_clusters @ [median current_cluster]
                        else column_clusters))
            else None)
      else None)"

subsection \<open>Realignment (lines 287--306)\<close>

text \<open>
  Python's \<open>min(seq, key=f)\<close> and \<open>max(seq, key=f)\<close> return the first element, in the order
  of iteration, at which the key is least (greatest). Both raise on an empty sequence;
  the calls of the source are on \<open>range(len(column_clusters))\<close> with more than one anchor
  and on the set of a non-empty list.
\<close>

definition py_min_key :: "('a \<Rightarrow> 'k::linorder) \<Rightarrow> 'a list \<Rightarrow> 'a" where
  "py_min_key key vs = foldl (\<lambda>best v. if key v < key best then v else best) (hd vs) (tl vs)"

definition py_max_key :: "('a \<Rightarrow> 'k::linorder) \<Rightarrow> 'a list \<Rightarrow> 'a" where
  "py_max_key key vs = foldl (\<lambda>best v. if key best < key v then v else best) (hd vs) (tl vs)"

definition nearest_col :: "rat list \<Rightarrow> int \<Rightarrow> nat" where
  "nearest_col column_clusters cell_x =
     py_min_key (\<lambda>i. \<bar>of_int cell_x - column_clusters ! i\<bar>) [0..<length column_clusters]"

text \<open>
  The body of \<open>for cell_text in row\<close>: the inner loop stops at the first token whose text
  is the cell's (\<open>break\<close>); a cell with no such token leaves the row as it is.
\<close>

definition place_cell :: "rat list \<Rightarrow> token list \<Rightarrow> string list \<Rightarrow> string \<Rightarrow> string list" where
  "place_cell column_clusters text_positions aligned_row cell_text =
     (case find (\<lambda>tp. tok_text tp = cell_text) text_positions of
        None \<Rightarrow> aligned_row
      | Some tp \<Rightarrow>
          (let k = nearest_col column_clusters (tok_x tp)
           in if aligned_row ! k = ''''
              then aligned_row[k := cell_text]
              else aligned_row[k := aligned_row ! k @ '' '' @ cell_text]))"

definition align_row :: "rat list \<Rightarrow> token list \<Rightarrow> string list \<Rightarrow> string list" where
  "align_row column_clusters text_positions row =
     foldl (place_cell column_clusters text_positions)
       (replicate (length column_clusters) '''') row"

subsection \<open>\<open>detect_table_structure\<close>\<close>

definition detect_table_structure :: "token list \<Rightarrow> string list list" where
  "detect_table_structure text_positions =
     (if text_positions = [] then []
      else
        (let rows = row_clustering text_positions
         in if rows \<noteq> [] \<and> text_positions \<noteq> [] then
              (case column_anchors (map tok_x text_positions) of
                 None \<Rightarrow> rows
               | Some column_clusters \<Rightarrow>
                   if (if rows \<noteq> []
                       then 1 < length column_clusters
                            \<and> length column_clusters < length (rows ! 0)
                       else False)
                   then map (align_row column_clusters text_positions) rows
                   else rows)
            else rows))"

text \<open>
  The specification's wording of the realignment of one row, for comparison with
  \<open>align_row\<close>: a cell goes to the anchor nearest to the \<open>x\<close> of the first token with the
  cell's text, and the cells of one anchor are joined by single spaces in row order.
\<close>

fun join_spaces :: "string list \<Rightarrow> string" where
  "join_spaces [] = ''''"
| "join_spaces [c] = c"
| "join_spaces (c # d # cs) = c @ '' '' @ join_spaces (d # cs)"

definition anchor_of_cell :: "rat list \<Rightarrow> token list \<Rightarrow> string \<Rightarrow> nat option" where
  "anchor_of_cell anchors text_positions cell_text =
     map_option (\<lambda>tp. nearest_col anchors (tok_x tp))
       (find (\<lambda>tp. tok_text tp = cell_text) text_positions)"

definition aligned_row_spec :: "rat list \<Rightarrow> token list \<Rightarrow> string list \<Rightarrow> string list" where
  "aligned_row_spec anchors text_positions row =
     map (\<lambda>k. join_spaces (filter (\<lambda>c. anchor_of_cell anchors text_positions c = Some k) row))
       [0..<length anchors]"

subsection \<open>Tables (\<open>pandas.DataFrame\<close>)\<close>

text \<open>
  A frame is its column labels and its rows of cells. A cell is the missing marker
  \<open>np.nan\<close>, a string or a number. The numbers and the parser of one string into a number
  belong to pandas and are parameters here: \<open>'n\<close> and \<open>to_num\<close>.
\<close>

datatype 'n cell = NaN | Str string | Num 'n

record 'n dataframe =
  df_columns :: "string list"
  df_values :: "'n cell list list"

text \<open>\<open>pd.DataFrame()\<close>: no columns, no rows.\<close>

definition empty_frame :: "'n dataframe" where
  "empty_frame = \<lparr>df_columns = [], df_values = []\<rparr>"

text \<open>\<open>df.replace('', np.nan)\<close> replaces the cells that are the empty string; labels stay.\<close>

definition replace_empty :: "'n dataframe \<Rightarrow> 'n dataframe" where
  "replace_empty df =
     df\<lparr>df_values := map (map (\<lambda>c. if c = Str '''' then NaN else c)) (df_values df)\<rparr>"

text \<open>
  \<open>pd.to_numeric(series, errors='ignore')\<close>, from the documentation of pandas: every
  string is parsed; if all parse the series of numbers is returned (missing cells stay
  missing), and if one does not, "invalid parsing will return the input".
\<close>

definition parses :: "(string \<Rightarrow> 'n option) \<Rightarrow> 'n cell \<Rightarrow> bool" where
  "parses to_num c = (case c of Str s \<Rightarrow> to_num s \<noteq> None | _ \<Rightarrow> True)"

definition as_number :: "(string \<Rightarrow> 'n option) \<Rightarrow> 'n cell \<Rightarrow> 'n cell" where
  "as_number to_num c =
     (case c of Str s \<Rightarrow> (case to_num s of Some n \<Rightarrow> Num n | None \<Rightarrow> c) | _ \<Rightarrow> c)"

definition to_numeric_ignore :: "(string \<Rightarrow> 'n option) \<Rightarrow> 'n cell list \<Rightarrow> 'n cell list" where
  "to_numeric_ignore to_num series =
     (if list_all (parses to_num) series then map (as_number to_num) series else series)"

text \<open>A cell of a text column still is a string; a numeric column has none.\<close>

definition is_text :: "'n cell \<Rightarrow> bool" where
  "is_text c = (case c of Str s \<Rightarrow> True | _ \<Rightarrow> False)"

text \<open>The cells of the column at position \<open>j\<close>, top down.\<close>

definition column_of :: "nat \<Rightarrow> 'n dataframe \<Rightarrow> 'n cell list" where
  "column_of j df = map (\<lambda>r. r ! j) (df_values df)"

text \<open>
  One round of \<open>for col in df.columns\<close>. \<open>df[col]\<close> selects by label: it is a series when
  the label stands once in the header, and a frame of all the columns so labelled when
  it is repeated; \<open>pd.to_numeric\<close> raises \<open>TypeError\<close> on a frame, and
  \<open>except Exception: pass\<close> leaves \<open>df\<close> as it was.
\<close>

definition label_positions :: "string list \<Rightarrow> string \<Rightarrow> nat list" where
  "label_positions labels col = filter (\<lambda>j. labels ! j = col) [0..<length labels]"

definition coerce_column :: "(string \<Rightarrow> 'n option) \<Rightarrow> 'n dataframe \<Rightarrow> string \<Rightarrow> 'n dataframe" where
  "coerce_column to_num df col =
     (case label_positions (df_columns df) col of
        [j] \<Rightarrow>
          (let series = column_of j df;
               converted = to_numeric_ignore to_num series
           in df\<lparr>df_values := map2 (\<lambda>r v. r[j := v]) (df_values df) converted\<rparr>)
      | _ \<Rightarrow> df)"

text \<open>A frame of pandas is rectangular: every row has one cell for every label.\<close>

definition rectangular :: "'n dataframe \<Rightarrow> bool" where
  "rectangular df = list_all (\<lambda>r. length r = length (df_columns df)) (df_values df)"

text \<open>The loop \<open>for col in df.columns\<close> (lines 342--346).\<close>

definition coerce_columns :: "(string \<Rightarrow> 'n option) \<Rightarrow> 'n dataframe \<Rightarrow> 'n dataframe" where
  "coerce_columns to_num df = foldl (coerce_column to_num) df (df_columns df)"

subsection \<open>\<open>clean_and_normalize_data\<close>\<close>

text \<open>
  \<open>max(set(row_lengths), key=row_lengths.count)\<close> takes the first length of greatest count
  in the order in which Python iterates over the set. That order is the interpreter's;
  it is the parameter \<open>set_iter\<close>, of which only \<open>iterates_set\<close> is known: every element
  of the list comes once.
\<close>

definition iterates_set :: "(nat list \<Rightarrow> nat list) \<Rightarrow> bool" where
  "iterates_set set_iter = (\<forall>ls. distinct (set_iter ls) \<and> set (set_iter ls) = set ls)"

text \<open>
  The body of \<open>for row in rows\<close>. For a string, \<open>str(item) if item else ''\<close> is the string
  itself.
\<close>

definition normalize_row :: "nat \<Rightarrow> string list \<Rightarrow> string list" where
  "normalize_row num_columns row0 =
     (let row = map (\<lambda>item. if item \<noteq> '''' then item else '''') row0
      in if length row < num_columns then row @ replicate (num_columns - length row) ''''
         else if length row > num_columns then take num_columns row
         else row)"

text \<open>Lines 315--316: the most frequent row length.\<close>

definition num_columns_of :: "(nat list \<Rightarrow> nat list) \<Rightarrow> string list list \<Rightarrow> nat" where
  "num_columns_of set_iter rows =
     (let row_lengths = map length rows
      in if row_lengths \<noteq> []
         then py_max_key (count_list row_lengths) (set_iter row_lengths)
         else 0)"

text \<open>
  Lines 332--340: the frame built from the normalized rows, before the coercion of its
  columns. \<open>header_row if header_row else None\<close> is \<open>header_row\<close>: once \<open>num_columns\<close> is
  not 0, every normalized row has \<open>num_columns\<close> cells, so the header is not empty.
\<close>

definition frame_of_normalized :: "string list list \<Rightarrow> 'n dataframe" where
  "frame_of_normalized normalized_rows =
     (let header_row = (if normalized_rows \<noteq> [] then normalized_rows ! 0 else []);
          data_rows = (if length normalized_rows > 1 then drop 1 normalized_rows else []);
          df = (if data_rows \<noteq> []
                then \<lparr>df_columns = header_row, df_values = map (map Str) data_rows\<rparr>
                else \<lparr>df_columns = header_row, df_values = []\<rparr>)
      in replace_empty df)"

definition clean_and_normalize_data ::
  "(nat list \<Rightarrow> nat list) \<Rightarrow> (string \<Rightarrow> 'n option) \<Rightarrow> string list list \<Rightarrow> 'n dataframe" where
  "clean_and_normalize_data set_iter to_num rows =
     (if rows = [] then empty_frame
      else
        (let num_columns = num_columns_of set_iter rows
         in if num_columns = 0 then empty_frame
            else
              (let normalized_rows = map (normalize_row num_columns) rows;
                   df = frame_of_normalized normalized_rows
               in coerce_columns to_num df)))"

subsection \<open>\<open>extract_table_from_image\<close>\<close>

text \<open>
  The result dictionary. The keys \<open>error\<close> and \<open>preview\<close> are absent from the success
  and the failure dictionary respectively (\<open>None\<close> here), and \<open>data\<close> is Python's \<open>None\<close>
  in a failure.
\<close>

record 'n result =
  success :: bool
  error :: "string option"
  rows_extracted :: nat
  columns_detected :: nat
  data :: "'n dataframe option"
  preview :: "string option"
  confidence :: rat
  processing_time_seconds :: rat
  backend :: string

text \<open>Python's \<open>round(q, n)\<close> on an exact value: to the nearest, a tie to the even digit.\<close>

definition round_half_even :: "rat \<Rightarrow> int" where
  "round_half_even q =
     (let f = \<lfloor>q\<rfloor>; d = q - of_int f
      in if d < 1 / 2 then f else if 1 / 2 < d then f + 1 else if even f then f else f + 1)"

definition py_round :: "rat \<Rightarrow> nat \<Rightarrow> rat" where
  "py_round q n = of_int (round_half_even (q * 10 ^ n)) / 10 ^ n"

text \<open>The failure dictionary, written three times in the source with three messages.\<close>

definition failure :: "string \<Rightarrow> rat \<Rightarrow> string \<Rightarrow> 'n result" where
  "failure msg elapsed bk =
     \<lparr>success = False, error = Some msg, rows_extracted = 0, columns_detected = 0,
      data = None, preview = None, confidence = 0,
      processing_time_seconds = py_round elapsed 2, backend = bk\<rparr>"

text \<open>
  The body of \<open>try\<close> (lines 354--398). Each call it makes either returns a value or raises,
  and is given by that outcome: \<open>Inr\<close> the value returned, \<open>Inl\<close> the message \<open>str(e)\<close> of the
  exception raised. \<open>located\<close> is the outcome of \<open>self.extract_text_with_positions\<close>,
  \<open>detect\<close>, \<open>clean\<close> and \<open>render\<close> give the outcomes of \<open>self.detect_table_structure\<close>,
  \<open>self.clean_and_normalize_data\<close> and pandas' \<open>df.head(5).to_string()\<close> on their
  arguments. \<open>len\<close>, the sum of the float confidences and its division by the length of
  a non-empty list do not raise. \<open>df.empty\<close> holds when the frame has no column or no
  row. The outcome of the body itself is \<open>Inl\<close> when an exception leaves it.
\<close>

definition try_body ::
  "(string + token list) \<Rightarrow> (token list \<Rightarrow> string + string list list)
    \<Rightarrow> (string list list \<Rightarrow> string + 'n dataframe) \<Rightarrow> ('n dataframe \<Rightarrow> string + string)
    \<Rightarrow> string \<Rightarrow> rat \<Rightarrow> string + 'n result" where
  "try_body located detect clean render bk elapsed =
     (case located of
        Inl e \<Rightarrow> Inl e
      | Inr text_positions \<Rightarrow>
          if text_positions = [] then Inr (failure ''No text detected'' elapsed bk)
          else
            (case detect text_positions of
               Inl e \<Rightarrow> Inl e
             | Inr rows \<Rightarrow>
                 if rows = [] then Inr (failure ''Could not detect table structure'' elapsed bk)
                 else
                   (case clean rows of
                      Inl e \<Rightarrow> Inl e
                    | Inr df \<Rightarrow>
                        (let n_rows = length (df_values df);
                             n_columns = length (df_columns df);
                             df_empty = (df_columns df = [] \<or> df_values df = [])
                         in case (if \<not> df_empty
                                  then render (df\<lparr>df_values := take 5 (df_values df)\<rparr>)
                                  else Inr ''No data'') of
                              Inl e \<Rightarrow> Inl e
                            | Inr shown \<Rightarrow>
                                (let avg_conf = sum_list (map tok_conf text_positions)
                                                / of_nat (length text_positions)
                                 in Inr \<lparr>success = True, error = None,
                                         rows_extracted = n_rows,
                                         columns_detected = n_columns, data = Some df,
                                         preview = Some shown,
                                         confidence = py_round avg_conf 4,
                                         processing_time_seconds = py_round elapsed 2,
                                         backend = bk\<rparr>)))))"

text \<open>
  The method (lines 350--410) over the outcomes of its calls: \<open>except Exception as e\<close>
  turns an exception that leaves the body into the failure dictionary carrying
  \<open>str(e)\<close>. \<open>start_time\<close> and \<open>end_time\<close> are the readings of \<open>time.time()\<close> at entry and
  at the \<open>return\<close> taken.
\<close>

definition extract_table_from_image_gen ::
  "(string + token list) \<Rightarrow> (token list \<Rightarrow> string + string list list)
    \<Rightarrow> (string list list \<Rightarrow> string + 'n dataframe) \<Rightarrow> ('n dataframe \<Rightarrow> string + string)
    \<Rightarrow> string \<Rightarrow> rat \<Rightarrow> rat \<Rightarrow> 'n result" where
  "extract_table_from_image_gen located detect clean render bk start_time end_time =
     (case try_body located detect clean render bk (end_time - start_time) of
        Inr res \<Rightarrow> res
      | Inl e \<Rightarrow> failure e (end_time - start_time) bk)"

text \<open>
  The method with the calls as they are embedded above: \<open>detect_table_structure\<close>,
  \<open>clean_and_normalize_data\<close> and a rendering \<open>to_string\<close> that return a value on every
  input. The source's calls do so on pixel-scale tokens; they raise where a coordinate
  leaves the range of a float (\<open>np.median\<close>), which \<open>extract_table_from_image_gen\<close> covers
  and this instance does not.
\<close>

definition extract_table_from_image ::
  "(string + token list) \<Rightarrow> (nat list \<Rightarrow> nat list) \<Rightarrow> (string \<Rightarrow> 'n option)
    \<Rightarrow> ('n dataframe \<Rightarrow> string) \<Rightarrow> string \<Rightarrow> rat \<Rightarrow> rat \<Rightarrow> 'n result" where
  "extract_table_from_image located set_iter to_num to_string bk start_time end_time =
     extract_table_from_image_gen located
       (\<lambda>text_positions. Inr (detect_table_structure text_positions))
       (\<lambda>rows. Inr (clean_and_normalize_data set_iter to_num rows))
       (\<lambda>df. Inr (to_string df))
       bk start_time end_time"

text \<open>
  A grid read as a table, cell for cell: the first row as the labels, the other rows as
  rows of strings. It is what "a table identical to the grid" means below.
\<close>

definition grid_as_table :: "string list list \<Rightarrow> 'n dataframe" where
  "grid_as_table rows = \<lparr>df_columns = rows ! 0, df_values = map (map Str) (drop 1 rows)\<rparr>"

subsection \<open>The end-to-end scenario of the specification\<close>

definition example_tokens :: "token list" where
  "example_tokens =
     [(''Name'', (10, 5), 9 / 10), (''Age'', (10, 60), 17 / 20),
      (''Alice'', (40, 5), 19 / 20), (''30'', (40, 62), 9 / 10),
      (''Bob'', (70, 6), 22 / 25), (''25'', (70, 59), 23 / 25)]"

text \<open>
  Seven tokens in two rows whose \<open>x\<close> values form three clusters, fewer than the five
  cells of the first row: an input on which rows are realigned.
\<close>

definition realigned_tokens :: "token list" where
  "realigned_tokens =
     [(''a'', (10, 5), 1), (''b'', (10, 6), 1), (''c'', (10, 7), 1), (''d'', (10, 100), 1),
      (''e'', (10, 200), 1), (''f'', (40, 8), 1), (''g'', (40, 199), 1)]"

text \<open>
  The specification's five \<open>y\<close> values 10, 12, 40, 42, 70, on tokens that come right to
  left within their rows.
\<close>

definition banded_tokens :: "token list" where
  "banded_tokens =
     [(''B'', (10, 60), 1), (''A'', (12, 5), 1), (''D'', (40, 62), 1), (''C'', (42, 5), 1),
      (''E'', (70, 6), 1)]"

text \<open>Two tokens of one row: a grid of the header row alone.\<close>

definition header_only_tokens :: "token list" where
  "header_only_tokens = [(''Name'', (10, 5), 9 / 10), (''Age'', (10, 60), 17 / 20)]"

text \<open>A table whose two columns carry the same label, the first one with numbers.\<close>

definition repeated_label_tokens :: "token list" where
  "repeated_label_tokens =
     [(''a'', (10, 5), 1), (''a'', (10, 60), 1), (''10'', (40, 5), 1), (''x'', (40, 60), 1),
      (''20'', (70, 5), 1), (''y'', (70, 60), 1), (''30'', (100, 5), 1), (''z'', (100, 60), 1)]"

text \<open>
  A parser of decimal digit strings and a rendering of frames, to instantiate \<open>to_num\<close>
  and \<open>to_string\<close> where a concrete one is needed.
\<close>

definition example_to_string :: "nat dataframe \<Rightarrow> string" where
  "example_to_string df = ''shown''"

definition digits_to_nat :: "string \<Rightarrow> nat option" where
  "digits_to_nat s =
     (if s \<noteq> [] \<and> list_all (\<lambda>ch. ch \<in> set ''0123456789'') s
      then Some (foldl (\<lambda>acc ch. 10 * acc + (of_char ch - 48)) 0 s)
      else None)"

text \<open>
  Outcomes of the calls of the orchestration, to instantiate \<open>detect\<close>, \<open>clean\<close> and
  \<open>render\<close>: a \<open>detect_table_structure\<close> that raises the \<open>OverflowError\<close> of a conversion to
  float, and a normalizer and a rendering that return.
\<close>

definition raising_detect :: "token list \<Rightarrow> string + string list list" where
  "raising_detect text_positions = Inl ''int too large to convert to float''"

definition example_clean :: "string list list \<Rightarrow> string + nat dataframe" where
  "example_clean rows = Inr (clean_and_normalize_data remdups digits_to_nat rows)"

definition example_render :: "nat dataframe \<Rightarrow> string + string" where
  "example_render df = Inr (example_to_string df)"

section \<open>Row clustering keeps every token\<close>

lemma mset_emit_row: "mset (emit_row cur) = mset (map fst cur)"
  unfolding emit_row_def
  by (metis mset_map mset_sort)

lemma group_rows_mset:
  "group_rows thr tps rows cur prev = (rows', cur') \<Longrightarrow>
   mset (concat rows') + mset (map fst cur') =
   mset (concat rows) + mset (map fst cur) + mset (map tok_text tps)"
proof (induction thr tps rows cur prev arbitrary: rows' cur' rule: group_rows.induct)
  case (1 thr rows current_row previous_y)
  then show ?case by simp
next
  case (2 thr tx y x confidence rest rows current_row previous_y)
  show ?case
  proof (cases "previous_y = None \<or> of_int \<bar>y - the previous_y\<bar> < thr")
    case True
    from "2.prems" have
      "group_rows thr rest rows (current_row @ [(tx, x, confidence)]) (Some y) = (rows', cur')"
      by (simp only: group_rows.simps True if_True)
    from "2.IH"(1) [OF True this] show ?thesis
      by (simp add: tok_text_def)
  next
    case False
    from "2.prems" have
      "group_rows thr rest
         (if current_row \<noteq> [] then rows @ [emit_row current_row] else rows)
         [(tx, x, confidence)] (Some y) = (rows', cur')"
      by (simp only: group_rows.simps False if_False)
    from "2.IH"(2) [OF False this] show ?thesis
      by (simp add: tok_text_def mset_emit_row)
  qed
qed

lemma row_clustering_mset:
  "mset (concat (row_clustering tps)) = mset (map tok_text tps)"
proof -
  obtain rows cur where g: "group_rows (y_threshold tps) tps [] [] None = (rows, cur)"
    by (cases "group_rows (y_threshold tps) tps [] [] None")
  from group_rows_mset [OF g]
  have "mset (concat rows) + mset (map fst cur) = mset (map tok_text tps)"
    by simp
  then show ?thesis
    unfolding row_clustering_def using g by (auto simp: mset_emit_row)
qed

text \<open>
  C1. For every non-empty token sequence, row clustering places each token in exactly
  one emitted row: the cells of all rows together are, as a multiset, the texts of the
  input tokens, so their number is the number of tokens and none is duplicated or
  dropped.
\<close>

theorem row_clustering_keeps_tokens:
  assumes "text_positions \<noteq> []"
  shows "mset (concat (row_clustering text_positions)) = mset (map tok_text text_positions)
       \<and> length (concat (row_clustering text_positions)) = length text_positions"
proof -
  have m: "mset (concat (row_clustering text_positions)) = mset (map tok_text text_positions)"
    by (rule row_clustering_mset)
  then have "size (mset (concat (row_clustering text_positions)))
           = size (mset (map tok_text text_positions))"
    by simp
  then have "length (concat (row_clustering text_positions)) = length text_positions"
    by (simp del: mset_map)
  with m show ?thesis by simp
qed

theorem row_clustering_keeps_tokens_witness:
  "[(''Name'', (10, 5), 9 / 10), (''Age'', (10, 60), 17 / 20), (''Alice'', (40, 5), 19 / 20)]
     \<noteq> ([] :: token list)
   \<and> length (concat (row_clustering
        [(''Name'', (10, 5), 9 / 10), (''Age'', (10, 60), 17 / 20),
         (''Alice'', (40, 5), 19 / 20)])) = 3"
  using row_clustering_keeps_tokens
    [of "[(''Name'', (10, 5), 9 / 10), (''Age'', (10, 60), 17 / 20),
          (''Alice'', (40, 5), 19 / 20)]"]
  by simp

section \<open>Row clustering splits on chained gaps\<close>

lemma gaps_of_eq_Nil: "gaps_of vs = [] \<longleftrightarrow> length vs < 2"
  unfolding gaps_of_def by auto

lemma chained_rows_spec_Cons: "chained_rows_spec thr (tp # tps) \<noteq> []"
  by (cases tps) (auto split: list.splits)

lemma group_rows_chained:
  "(case group_rows thr tps rows (map tok_item (pre @ [lt])) (Some (tok_y lt)) of
      (rows', cur') \<Rightarrow> if cur' \<noteq> [] then rows' @ [emit_row cur'] else rows')
   = (case chained_rows_spec thr (lt # tps) of
        [] \<Rightarrow> rows
      | r # rs \<Rightarrow> rows @ [emit_row (map tok_item (pre @ r))]
                    @ map (\<lambda>row. emit_row (map tok_item row)) rs)"
proof (induction tps arbitrary: rows pre lt)
  case Nil
  show ?case by simp
next
  case (Cons tp rest)
  obtain tx y x c where tp: "tp = (tx, (y, x), c)"
    by (cases tp) auto
  have it: "tok_item (tx, (y, x), c) = (tx, x, c)" and ty: "tok_y (tx, (y, x), c) = y"
    by (simp_all add: tok_item_def tok_text_def tok_x_def tok_conf_def tok_y_def)
  have ty': "tok_y tp = y"
    by (simp add: tp ty)
  obtain r rs where crs: "chained_rows_spec thr (tp # rest) = r # rs"
    using chained_rows_spec_Cons [of thr tp rest] by (cases "chained_rows_spec thr (tp # rest)") auto
  show ?case
  proof (cases "of_int \<bar>y - tok_y lt\<bar> < thr")
    case True
    then have g: "group_rows thr (tp # rest) rows (map tok_item (pre @ [lt])) (Some (tok_y lt))
        = group_rows thr rest rows (map tok_item ((pre @ [lt]) @ [tp])) (Some (tok_y tp))"
      by (simp add: tp it ty)
    from True have s: "chained_rows_spec thr (lt # tp # rest) = (lt # r) # rs"
      by (simp add: ty' crs)
    show ?thesis
      unfolding g s using Cons.IH [of rows "pre @ [lt]" tp] by (simp add: crs)
  next
    case False
    then have g: "group_rows thr (tp # rest) rows (map tok_item (pre @ [lt])) (Some (tok_y lt))
        = group_rows thr rest (rows @ [emit_row (map tok_item (pre @ [lt]))])
            (map tok_item ([] @ [tp])) (Some (tok_y tp))"
      by (simp add: tp it ty)
    from False have s: "chained_rows_spec thr (lt # tp # rest) = [lt] # r # rs"
      by (simp add: ty' crs)
    show ?thesis
      unfolding g s
      using Cons.IH [of "rows @ [emit_row (map tok_item (pre @ [lt]))]" "[]" tp]
      by (simp add: crs)
  qed
qed

lemma row_clustering_chained:
  "row_clustering tps
   = map (\<lambda>row. emit_row (map tok_item row)) (chained_rows_spec (y_threshold tps) tps)"
proof (cases tps)
  case Nil
  then show ?thesis by (simp add: row_clustering_def)
next
  case (Cons tp rest)
  obtain tx y x c where tp: "tp = (tx, (y, x), c)"
    by (cases tp) auto
  have it: "tok_item (tx, (y, x), c) = (tx, x, c)" and ty: "tok_y (tx, (y, x), c) = y"
    by (simp_all add: tok_item_def tok_text_def tok_x_def tok_conf_def tok_y_def)
  define thr where "thr = y_threshold tps"
  have g: "group_rows thr tps [] [] None
         = group_rows thr rest [] (map tok_item ([] @ [tp])) (Some (tok_y tp))"
    by (simp add: Cons tp it ty)
  obtain r rs where crs: "chained_rows_spec thr (tp # rest) = r # rs"
    using chained_rows_spec_Cons [of thr tp rest] by (cases "chained_rows_spec thr (tp # rest)") auto
  have "row_clustering tps
      = (case group_rows thr tps [] [] None of
           (rows', cur') \<Rightarrow> if cur' \<noteq> [] then rows' @ [emit_row cur'] else rows')"
    by (simp add: row_clustering_def thr_def)
  also have "\<dots> = map (\<lambda>row. emit_row (map tok_item row)) (chained_rows_spec thr tps)"
    unfolding g using group_rows_chained [of thr rest "[]" "[]" tp]
    by (simp add: Cons crs)
  finally show ?thesis by (simp add: thr_def)
qed

lemma gaps_of_Cons2: "gaps_of (a # b # vs) = (b - a) # gaps_of (b # vs)"
proof -
  have "[0..<Suc (length vs)] = 0 # map Suc [0..<length vs]"
    by (simp add: upt_conv_Cons map_Suc_upt del: upt_Suc)
  then show ?thesis
    by (simp add: gaps_of_def comp_def del: upt_Suc)
qed

lemma gaps_of_spec: "gaps_of vs = consecutive_gaps_spec vs"
  by (induction vs rule: consecutive_gaps_spec.induct)
     (simp_all add: gaps_of_Cons2, simp_all add: gaps_of_def)

lemma middle_spec_nth:
  "middle_spec s =
     (if s = [] then None
      else Some (if length s mod 2 = 1 then of_int (s ! (length s div 2))
                 else (of_int (s ! (length s div 2 - 1)) + of_int (s ! (length s div 2))) / 2))"
proof (induction s rule: middle_spec.induct)
  case 1
  show ?case by simp
next
  case (2 a)
  show ?case by simp
next
  case (3 a b)
  show ?case by simp
next
  case (4 a b c vs)
  define s where "s = a # b # c # vs"
  define t where "t = butlast (b # c # vs)"
  define n where "n = Suc (length vs)"
  have lt: "length t = n" by (simp add: t_def n_def)
  have ls: "length s = Suc (Suc n)" by (simp add: s_def n_def)
  have nth: "t ! k = s ! Suc k" if "k < n" for k
    using that by (simp add: t_def s_def n_def nth_butlast del: butlast.simps)
  have ih: "middle_spec t =
      Some (if n mod 2 = 1 then of_int (t ! (n div 2))
            else (of_int (t ! (n div 2 - 1)) + of_int (t ! (n div 2))) / 2)"
    using "4.IH" lt unfolding t_def [symmetric] by (auto simp: n_def)
  have ms: "middle_spec s = middle_spec t"
    by (simp add: s_def t_def del: butlast.simps)
  have n0: "0 < n" by (simp add: n_def)
  have mid: "t ! (n div 2) = s ! (Suc (Suc n) div 2)"
    using nth [of "n div 2"] n0 by simp
  have low: "t ! (n div 2 - 1) = s ! (Suc (Suc n) div 2 - 1)" if "n mod 2 \<noteq> 1"
  proof -
    from that n0 have "2 \<le> n" by presburger
    then have "0 < n div 2" by simp
    then have "Suc (n div 2 - 1) = Suc (Suc n) div 2 - 1" by simp
    with nth [of "n div 2 - 1"] n0 show ?thesis by simp
  qed
  have par: "Suc (Suc n) mod 2 = n mod 2" by simp
  have "middle_spec s =
      Some (if length s mod 2 = 1 then of_int (s ! (length s div 2))
            else (of_int (s ! (length s div 2 - 1)) + of_int (s ! (length s div 2))) / 2)"
    unfolding ms ih ls par using mid low by auto
  then show ?case
    unfolding s_def by simp
qed

lemma median_spec_median: "vs \<noteq> [] \<Longrightarrow> median_spec vs = Some (median vs)"
proof -
  assume "vs \<noteq> []"
  then have "length (sort vs) \<noteq> 0" by simp
  then have "sort vs \<noteq> []" by (simp del: length_sort)
  then show ?thesis
    by (simp add: median_spec_def median_def middle_spec_nth Let_def)
qed

lemma median_spec_Nil: "median_spec [] = None"
  by (simp add: median_spec_def)

lemma clamp_spec_max_min: "lo \<le> hi \<Longrightarrow> clamp_spec lo hi v = max lo (min hi v)"
  by (auto simp: clamp_spec_def)

lemma y_threshold_spec: "y_threshold tps = threshold_spec (map tok_y tps)"
proof (cases "gaps_of (sort (map tok_y tps)) = []")
  case True
  then show ?thesis
    by (simp add: y_threshold_def threshold_spec_def gaps_of_spec [symmetric]
        median_spec_Nil clamp_spec_max_min Let_def)
next
  case False
  then show ?thesis
    by (simp add: y_threshold_def threshold_spec_def gaps_of_spec [symmetric]
        median_spec_median clamp_spec_max_min Let_def)
qed

lemma y_threshold_bounds: "15 \<le> y_threshold tps \<and> y_threshold tps \<le> 50"
  by (simp add: y_threshold_def Let_def)

text \<open>
  C3. The row threshold used by \<open>detect_table_structure\<close> is the specification's: the
  median of the consecutive gaps of the ascending-sorted \<open>y\<close> values (30 when there is
  no gap, that is with fewer than two tokens; in particular the median itself whenever
  two tokens have distinct \<open>y\<close>), times 1.3, clamped to \<open>[15, 50]\<close>. The rows emitted are
  those of the chained walk: a token starts a new row exactly when its \<open>y\<close> is at least
  the threshold away from the \<open>y\<close> of the token just before it (not from the \<open>y\<close> of the
  row's first token), each row then sorted by \<open>x\<close> and reduced to its texts.
\<close>

theorem row_clustering_threshold_chained:
  "y_threshold text_positions = threshold_spec (map tok_y text_positions)
   \<and> 15 \<le> y_threshold text_positions \<and> y_threshold text_positions \<le> 50
   \<and> row_clustering text_positions
     = map (\<lambda>row. emit_row (map tok_item row))
         (chained_rows_spec (y_threshold text_positions) text_positions)"
  using y_threshold_spec [of text_positions] y_threshold_bounds [of text_positions]
    row_clustering_chained [of text_positions]
  by blast

theorem row_clustering_threshold_chained_witness:
  "y_threshold banded_tokens = 39 / 2
   \<and> consecutive_gaps_spec (sort (map tok_y banded_tokens)) = [2, 28, 2, 28]
   \<and> median_spec [2, 28, 2, 28] = Some 15
   \<and> row_clustering banded_tokens = [[''A'', ''B''], [''C'', ''D''], [''E'']]"
proof -
  have t: "threshold_spec (map tok_y banded_tokens) = 39 / 2"
    unfolding banded_tokens_def by code_simp
  have g: "consecutive_gaps_spec (sort (map tok_y banded_tokens)) = [2, 28, 2, 28]"
    unfolding banded_tokens_def by code_simp
  have m: "median_spec [2, 28, 2, 28] = Some 15"
    by code_simp
  have c: "map (\<lambda>row. emit_row (map tok_item row)) (chained_rows_spec (39 / 2) banded_tokens)
         = [[''A'', ''B''], [''C'', ''D''], [''E'']]"
    unfolding banded_tokens_def by code_simp
  note th = row_clustering_threshold_chained [of banded_tokens]
  from th t have y: "y_threshold banded_tokens = 39 / 2" by simp
  from th have "row_clustering banded_tokens
      = map (\<lambda>row. emit_row (map tok_item row))
          (chained_rows_spec (y_threshold banded_tokens) banded_tokens)"
    by blast
  then have "row_clustering banded_tokens = [[''A'', ''B''], [''C'', ''D''], [''E'']]"
    unfolding y c .
  with y g m show ?thesis by blast
qed

section \<open>A token sequence always yields rows\<close>

lemma row_clustering_nonempty: "tps \<noteq> [] \<Longrightarrow> row_clustering tps \<noteq> []"
  by (cases tps) (simp_all add: row_clustering_chained chained_rows_spec_Cons)

lemma detect_table_structure_nonempty:
  "tps \<noteq> [] \<Longrightarrow> detect_table_structure tps \<noteq> []"
  using row_clustering_nonempty [of tps]
  by (simp add: detect_table_structure_def Let_def split: option.splits)

lemma extract_table_from_image_tokens:
  assumes "tps \<noteq> []"
  shows "extract_table_from_image (Inr tps) set_iter to_num to_string bk start_time end_time
       = (let df = clean_and_normalize_data set_iter to_num (detect_table_structure tps)
          in \<lparr>success = True, error = None, rows_extracted = length (df_values df),
              columns_detected = length (df_columns df), data = Some df,
              preview = Some (if df_columns df = [] \<or> df_values df = [] then ''No data''
                              else to_string (df\<lparr>df_values := take 5 (df_values df)\<rparr>)),
              confidence = py_round (sum_list (map tok_conf tps) / of_nat (length tps)) 4,
              processing_time_seconds = py_round (end_time - start_time) 2,
              backend = bk\<rparr>)"
  using assms detect_table_structure_nonempty [OF assms]
  by (simp add: extract_table_from_image_def extract_table_from_image_gen_def try_body_def
      Let_def)

text \<open>
  C10. For every non-empty token sequence \<open>detect_table_structure\<close> returns at least one
  row, so when the locator produced a token the orchestration does not take the branch
  "Could not detect table structure": it returns the success dictionary, with no
  \<open>error\<close> key.
\<close>

theorem failure_branch_unreachable:
  assumes "text_positions \<noteq> []"
  shows "detect_table_structure text_positions \<noteq> []
       \<and> success (extract_table_from_image (Inr text_positions) set_iter to_num to_string
                    bk start_time end_time)
       \<and> error (extract_table_from_image (Inr text_positions) set_iter to_num to_string
                    bk start_time end_time) = None"
  using detect_table_structure_nonempty [OF assms]
  by (simp add: extract_table_from_image_tokens [OF assms] Let_def)

theorem failure_branch_unreachable_witness:
  "example_tokens \<noteq> []
   \<and> detect_table_structure example_tokens \<noteq> []
   \<and> success (extract_table_from_image (Inr example_tokens) remdups digits_to_nat
                example_to_string ''GEMINI_VISION'' 0 1)"
proof -
  have ne: "example_tokens \<noteq> []"
    by (simp add: example_tokens_def)
  from failure_branch_unreachable
    [OF ne, of remdups digits_to_nat example_to_string "''GEMINI_VISION''" 0 1]
  show ?thesis using ne by simp
qed

section \<open>The orchestration always returns a result\<close>

text \<open>
  C2. Whatever the locator and the calls inside the \<open>try\<close> do, return or raise, the
  orchestration returns a result dictionary: either a success without \<open>error\<close>, or a
  failure that carries a message and has zero rows, zero columns, zero confidence and
  no table. When the locator returns no token the result is the failure
  "No text detected". When an exception with message \<open>e\<close> is raised by the locator, by
  \<open>detect_table_structure\<close>, by \<open>clean_and_normalize_data\<close> or by the rendering of the
  preview, the result is the failure carrying \<open>e\<close>: no exception leaves the function.
\<close>

theorem extract_never_raises:
  "(let res = extract_table_from_image_gen located detect clean render bk start_time end_time;
        failed = (\<lambda>msg. \<lparr>success = False, error = Some msg, rows_extracted = 0,
                          columns_detected = 0, data = None, preview = None, confidence = 0,
                          processing_time_seconds = py_round (end_time - start_time) 2,
                          backend = bk\<rparr>)
    in ((success res \<and> error res = None) \<or> (\<exists>msg. res = failed msg))
       \<and> (located = Inr [] \<longrightarrow> res = failed ''No text detected'')
       \<and> (located = Inl e \<longrightarrow> res = failed e)
       \<and> (located = Inr text_positions \<and> text_positions \<noteq> []
            \<and> detect text_positions = Inl e \<longrightarrow> res = failed e)
       \<and> (located = Inr text_positions \<and> text_positions \<noteq> []
            \<and> detect text_positions = Inr rows \<and> rows \<noteq> []
            \<and> clean rows = Inl e \<longrightarrow> res = failed e)
       \<and> (located = Inr text_positions \<and> text_positions \<noteq> []
            \<and> detect text_positions = Inr rows \<and> rows \<noteq> []
            \<and> clean rows = Inr df \<and> df_columns df \<noteq> [] \<and> df_values df \<noteq> []
            \<and> render (df\<lparr>df_values := take 5 (df_values df)\<rparr>) = Inl e \<longrightarrow> res = failed e))"
proof -
  define elapsed where "elapsed = end_time - start_time"
  define failed :: "string \<Rightarrow> 'a result" where
    "failed = (\<lambda>msg. \<lparr>success = False, error = Some msg, rows_extracted = 0,
                     columns_detected = 0, data = None, preview = None, confidence = 0,
                     processing_time_seconds = py_round elapsed 2, backend = bk\<rparr>)"
  define res where
    "res = extract_table_from_image_gen located detect clean render bk start_time end_time"
  have f: "failure msg elapsed bk = failed msg" for msg
    by (simp add: failure_def failed_def)
  have r: "res = (case try_body located detect clean render bk elapsed of
                    Inr v \<Rightarrow> v | Inl msg \<Rightarrow> failed msg)"
    unfolding res_def extract_table_from_image_gen_def elapsed_def [symmetric]
    by (simp add: f split: sum.splits)
  have shape: "(success v \<and> error v = None) \<or> (\<exists>msg. v = failed msg)"
    if "try_body located detect clean render bk elapsed = Inr v" for v
    using that
    by (auto simp: try_body_def f Let_def split: sum.splits if_splits)
  have 1: "(success res \<and> error res = None) \<or> (\<exists>msg. res = failed msg)"
  proof (cases "try_body located detect clean render bk elapsed")
    case (Inl msg)
    then show ?thesis by (auto simp: r)
  next
    case (Inr v)
    with shape [OF Inr] show ?thesis by (simp add: r)
  qed
  have 2: "res = failed ''No text detected''" if "located = Inr []"
    using that by (simp add: r try_body_def f)
  have 3: "res = failed e" if "located = Inl e"
    using that by (simp add: r try_body_def)
  have 4: "res = failed e"
    if "located = Inr text_positions" "text_positions \<noteq> []" "detect text_positions = Inl e"
    using that by (simp add: r try_body_def)
  have 5: "res = failed e"
    if "located = Inr text_positions" "text_positions \<noteq> []"
      "detect text_positions = Inr rows" "rows \<noteq> []" "clean rows = Inl e"
    using that by (simp add: r try_body_def)
  have 6: "res = failed e"
    if "located = Inr text_positions" "text_positions \<noteq> []"
      "detect text_positions = Inr rows" "rows \<noteq> []" "clean rows = Inr df"
      "df_columns df \<noteq> []" "df_values df \<noteq> []"
      "render (df\<lparr>df_values := take 5 (df_values df)\<rparr>) = Inl e"
    using that by (simp add: r try_body_def Let_def)
  from 1 2 3 4 5 6 show ?thesis
    unfolding Let_def res_def [symmetric] elapsed_def [symmetric] failed_def [symmetric]
    by blast
qed


theorem extract_never_raises_witness:
  "example_tokens \<noteq> []
   \<and> raising_detect example_tokens = Inl ''int too large to convert to float''
   \<and> extract_table_from_image_gen (Inr example_tokens) raising_detect example_clean
        example_render ''GEMINI_VISION'' 0 1
     = \<lparr>success = False, error = Some ''int too large to convert to float'',
        rows_extracted = 0, columns_detected = 0, data = None, preview = None,
        confidence = 0, processing_time_seconds = 1, backend = ''GEMINI_VISION''\<rparr>
   \<and> extract_table_from_image_gen (Inr []) raising_detect example_clean
        example_render ''GEMINI_VISION'' 0 1
     = \<lparr>success = False, error = Some ''No text detected'',
        rows_extracted = 0, columns_detected = 0, data = None, preview = None,
        confidence = 0, processing_time_seconds = 1, backend = ''GEMINI_VISION''\<rparr>"
proof -
  have r: "py_round (1 - 0) 2 = 1"
    by code_simp
  have ne: "example_tokens \<noteq> []"
    by (simp add: example_tokens_def)
  have d: "raising_detect example_tokens = Inl ''int too large to convert to float''"
    by (simp add: raising_detect_def)
  from extract_never_raises [of "Inr example_tokens" raising_detect example_clean
      example_render "''GEMINI_VISION''" 0 1 "''int too large to convert to float''"
      example_tokens]
  have a: "extract_table_from_image_gen (Inr example_tokens) raising_detect example_clean
        example_render ''GEMINI_VISION'' 0 1
     = \<lparr>success = False, error = Some ''int too large to convert to float'',
        rows_extracted = 0, columns_detected = 0, data = None, preview = None,
        confidence = 0, processing_time_seconds = 1, backend = ''GEMINI_VISION''\<rparr>"
    unfolding Let_def r using ne d by blast
  from extract_never_raises [of "Inr []" raising_detect example_clean
      example_render "''GEMINI_VISION''" 0 1]
  have b: "extract_table_from_image_gen (Inr []) raising_detect example_clean
        example_render ''GEMINI_VISION'' 0 1
     = \<lparr>success = False, error = Some ''No text detected'',
        rows_extracted = 0, columns_detected = 0, data = None, preview = None,
        confidence = 0, processing_time_seconds = 1, backend = ''GEMINI_VISION''\<rparr>"
    unfolding Let_def r by blast
  from ne d a b show ?thesis by blast
qed

section \<open>Column clustering on the specification's example\<close>

text \<open>
  The claim C9, that the \<open>x\<close> values 5, 8, 60, 62, 120 yield exactly three anchors under
  the threshold \<open>max(20, median_x_gap * 2)\<close>, fails: the number of anchors is not 3.
\<close>

theorem column_anchors_example_counterexample:
  "map_option length (column_anchors [5, 8, 60, 62, 120]) \<noteq> Some 3"
  by code_simp

text \<open>
  C9, amended. For the \<open>x\<close> values 5, 8, 60, 62, 120 the gaps are 3, 52, 2, 58, their
  median is 27.5 and the threshold \<open>max(20, median_x_gap * 2)\<close> is 55; column clustering
  yields exactly two anchors, 34 (the median of 5, 8, 60, 62) and 120. The three
  anchors 6.5, 61 and 120 are what the same walk yields under the threshold 20.
\<close>

theorem column_anchors_example:
  "max 20 (median (gaps_of (sort [5, 8, 60, 62, 120])) * 2) = 55
   \<and> column_anchors [5, 8, 60, 62, 120] = Some [34, 120]
   \<and> cluster_loop 20 (drop 1 (sort [5, 8, 60, 62, 120])) [] [sort [5, 8, 60, 62, 120] ! 0]
     = ([13 / 2, 61], [120])"
  by code_simp

section \<open>Grids of uniform width\<close>

lemma distinct_single:
  assumes "distinct vs" and "set vs = {n}"
  shows "vs = [n]"
proof (cases vs)
  case Nil
  with assms show ?thesis by simp
next
  case (Cons a rest)
  with assms have "a = n" and "a \<notin> set rest" and "set rest \<subseteq> {n}"
    by auto
  then have "rest = []" by (cases rest) auto
  with Cons \<open>a = n\<close> show ?thesis by simp
qed

lemma iterates_set_single:
  assumes "iterates_set set_iter" and "set ls = {n}"
  shows "set_iter ls = [n]"
proof -
  from assms have "distinct (set_iter ls)" and "set (set_iter ls) = {n}"
    by (simp_all add: iterates_set_def)
  then show ?thesis by (rule distinct_single)
qed

lemma iterates_set_remdups: "iterates_set remdups"
  by (simp add: iterates_set_def)

lemma py_max_key_single: "py_max_key key [n] = n"
  by (simp add: py_max_key_def)

lemma num_columns_of_uniform:
  assumes "iterates_set set_iter" and "rows \<noteq> []" and "list_all (\<lambda>r. length r = w) rows"
  shows "num_columns_of set_iter rows = w"
proof -
  from assms(2,3) have "set (map length rows) = {w}"
    by (cases rows) (auto simp: list_all_iff)
  from iterates_set_single [OF assms(1) this] assms(2) show ?thesis
    by (simp add: num_columns_of_def py_max_key_single)
qed

lemma normalize_row_same: "length r = w \<Longrightarrow> normalize_row w r = r"
  by (simp add: normalize_row_def Let_def map_idI)

lemma length_normalize_row [simp]: "length (normalize_row w r) = w"
  by (simp add: normalize_row_def Let_def)

lemma normalized_uniform:
  "list_all (\<lambda>r. length r = w) rows \<Longrightarrow> map (normalize_row w) rows = rows"
  by (simp add: list_all_iff normalize_row_same map_idI)

lemma frame_of_normalized_eq:
  "rows \<noteq> [] \<Longrightarrow> frame_of_normalized rows = replace_empty (grid_as_table rows)"
  by (cases rows) (auto simp: frame_of_normalized_def grid_as_table_def Let_def)

lemma clean_uniform:
  assumes "iterates_set set_iter" and "rows \<noteq> []" and "0 < w"
    and "list_all (\<lambda>r. length r = w) rows"
  shows "clean_and_normalize_data set_iter to_num rows
       = coerce_columns to_num (replace_empty (grid_as_table rows))"
  using assms
  by (simp add: clean_and_normalize_data_def num_columns_of_uniform [OF assms(1,2,4)]
      normalized_uniform frame_of_normalized_eq Let_def)

lemma rectangular_frame_of_normalized:
  "rows \<noteq> [] \<Longrightarrow> rectangular (frame_of_normalized (map (normalize_row w) rows))"
  by (cases rows)
     (auto simp: frame_of_normalized_def rectangular_def replace_empty_def Let_def
        list_all_iff dest: in_set_dropD)

section \<open>The coercion loop\<close>

lemma length_label_positions: "length (label_positions labels c) = count_list labels c"
proof (induction labels rule: rev_induct)
  case Nil
  show ?case by (simp add: label_positions_def)
next
  case (snoc l labels)
  have "filter (\<lambda>j. (labels @ [l]) ! j = c) [0..<length labels]
      = filter (\<lambda>j. labels ! j = c) [0..<length labels]"
    by (rule filter_cong) (auto simp: nth_append)
  with snoc show ?case
    by (simp add: label_positions_def)
qed

lemma set_label_positions:
  "set (label_positions labels c) = {j. j < length labels \<and> labels ! j = c}"
  by (auto simp: label_positions_def)

lemma label_positions_single:
  "label_positions labels c = [j] \<longleftrightarrow>
   j < length labels \<and> labels ! j = c \<and> count_list labels c = 1"
proof
  assume a: "label_positions labels c = [j]"
  then have "j \<in> set (label_positions labels c)" by simp
  moreover from a have "length (label_positions labels c) = 1" by simp
  ultimately show "j < length labels \<and> labels ! j = c \<and> count_list labels c = 1"
    by (simp add: set_label_positions length_label_positions)
next
  assume a: "j < length labels \<and> labels ! j = c \<and> count_list labels c = 1"
  then have l: "length (label_positions labels c) = 1"
    by (simp add: length_label_positions)
  then obtain i where i: "label_positions labels c = [i]"
    by (cases "label_positions labels c") auto
  from a have "j \<in> set (label_positions labels c)"
    by (simp add: set_label_positions)
  with i show "label_positions labels c = [j]" by simp
qed

lemma length_to_numeric_ignore [simp]:
  "length (to_numeric_ignore to_num col) = length col"
  by (simp add: to_numeric_ignore_def)

lemma parses_as_number: "parses to_num c \<Longrightarrow> \<not> is_text (as_number to_num c)"
  by (cases c) (auto simp: parses_def as_number_def is_text_def)

lemma not_text_parses: "\<not> is_text c \<Longrightarrow> parses to_num c \<and> as_number to_num c = c"
  by (cases c) (auto simp: parses_def as_number_def is_text_def)

lemma to_numeric_ignore_idem:
  "to_numeric_ignore to_num (to_numeric_ignore to_num col) = to_numeric_ignore to_num col"
proof (cases "list_all (parses to_num) col")
  case True
  then have "list_all (\<lambda>c. \<not> is_text c) (map (as_number to_num) col)"
    by (simp add: list_all_iff parses_as_number)
  then have "list_all (parses to_num) (map (as_number to_num) col)"
    and "map (as_number to_num) (map (as_number to_num) col) = map (as_number to_num) col"
    by (auto simp: list_all_iff not_text_parses)
  with True show ?thesis
    by (simp add: to_numeric_ignore_def)
next
  case False
  then show ?thesis by (simp add: to_numeric_ignore_def)
qed

lemma column_of_map2_update:
  assumes "length rs = length vs"
  shows "map (\<lambda>r. r ! i) (map2 (\<lambda>r v. r[j := v]) rs vs)
       = (if i = j then map2 (\<lambda>r v. if j < length r then v else r ! j) rs vs
          else map (\<lambda>r. r ! i) rs)"
  using assms by (induction rs vs rule: list_induct2) (auto simp: list_update_beyond)

lemma map2_second:
  assumes "length rs = length vs" and "list_all (\<lambda>r. j < length r) rs"
  shows "map2 (\<lambda>r v. if j < length r then v else r ! j) rs vs = vs"
  using assms by (induction rs vs rule: list_induct2) auto

lemma coerce_column_columns [simp]:
  "df_columns (coerce_column to_num df c) = df_columns df"
  by (simp add: coerce_column_def Let_def split: list.splits)

lemma coerce_column_rectangular:
  "rectangular df \<Longrightarrow> rectangular (coerce_column to_num df c)"
  by (auto simp: coerce_column_def rectangular_def Let_def list_all_iff column_of_def
      split: list.splits dest!: set_zip_leftD)

lemma coerce_column_column:
  assumes "rectangular df" and "i < length (df_columns df)"
  shows "column_of i (coerce_column to_num df c)
       = (if label_positions (df_columns df) c = [i]
          then to_numeric_ignore to_num (column_of i df) else column_of i df)"
proof (cases "\<exists>j. label_positions (df_columns df) c = [j]")
  case False
  then show ?thesis
    by (auto simp: coerce_column_def split: list.splits)
next
  case True
  then obtain j where j: "label_positions (df_columns df) c = [j]" by blast
  have len: "length (df_values df) = length (to_numeric_ignore to_num (column_of j df))"
    by (simp add: column_of_def)
  have all: "list_all (\<lambda>r. i < length r) (df_values df)"
    using assms by (simp add: rectangular_def list_all_iff)
  show ?thesis
    using column_of_map2_update [OF len, of i j] map2_second [OF len all]
    by (auto simp: coerce_column_def j Let_def column_of_def)
qed

lemma coerce_loop:
  assumes "rectangular df" and "i < length (df_columns df)"
  shows "rectangular (foldl (coerce_column to_num) df ls)
       \<and> df_columns (foldl (coerce_column to_num) df ls) = df_columns df
       \<and> column_of i (foldl (coerce_column to_num) df ls)
         = (if df_columns df ! i \<in> set ls \<and> count_list (df_columns df) (df_columns df ! i) = 1
            then to_numeric_ignore to_num (column_of i df) else column_of i df)"
  using assms
proof (induction ls arbitrary: df)
  case Nil
  then show ?case by simp
next
  case (Cons c ls)
  let ?df = "coerce_column to_num df c"
  have r: "rectangular ?df"
    by (rule coerce_column_rectangular) (rule Cons.prems)
  have i: "i < length (df_columns ?df)"
    using Cons.prems by simp
  note ih = Cons.IH [OF r i]
  have col: "column_of i ?df
       = (if label_positions (df_columns df) c = [i]
          then to_numeric_ignore to_num (column_of i df) else column_of i df)"
    by (rule coerce_column_column) (rule Cons.prems)+
  show ?case
    using ih Cons.prems(2)
    by (auto simp: col label_positions_single to_numeric_ignore_idem)
qed

lemma coerce_columns_column:
  assumes "rectangular df" and "i < length (df_columns df)"
  shows "column_of i (coerce_columns to_num df)
       = (if count_list (df_columns df) (df_columns df ! i) = 1
             \<and> list_all (parses to_num) (column_of i df)
          then map (as_number to_num) (column_of i df) else column_of i df)"
  using coerce_loop [OF assms, of to_num "df_columns df"] assms(2)
  by (auto simp: coerce_columns_def to_numeric_ignore_def)

lemma coerce_columns_columns [simp]:
  "df_columns (coerce_columns to_num df) = df_columns df"
proof -
  have "df_columns (foldl (coerce_column to_num) df ls) = df_columns df" for ls
    by (induction ls arbitrary: df) simp_all
  then show ?thesis by (simp add: coerce_columns_def)
qed

section \<open>The end-to-end scenario\<close>

lemma detect_example:
  "detect_table_structure example_tokens
   = [[''Name'', ''Age''], [''Alice'', ''30''], [''Bob'', ''25'']]"
  unfolding example_tokens_def by code_simp

text \<open>
  C4. For the six tokens of the specification's scenario, \<open>detect_table_structure\<close>
  yields the three rows Name/Age, Alice/30, Bob/25, and the orchestration returns a
  success whose table has the header Name, Age and the data rows Alice, 30 and Bob, 25,
  with \<open>rows_extracted = 2\<close> and \<open>columns_detected = 2\<close>; the Age column is numeric (its
  cells are the numbers parsed from "30" and "25"), the Name column stays text. What
  pandas parses is a hypothesis: "30" and "25" are numbers, "Alice" is not.
\<close>

theorem example_end_to_end:
  assumes "iterates_set set_iter"
    and "to_num ''30'' = Some a" and "to_num ''25'' = Some b" and "to_num ''Alice'' = None"
  shows "detect_table_structure example_tokens
           = [[''Name'', ''Age''], [''Alice'', ''30''], [''Bob'', ''25'']]
       \<and> data (extract_table_from_image (Inr example_tokens) set_iter to_num to_string
                 bk start_time end_time)
           = Some \<lparr>df_columns = [''Name'', ''Age''],
                   df_values = [[Str ''Alice'', Num a], [Str ''Bob'', Num b]]\<rparr>
       \<and> success (extract_table_from_image (Inr example_tokens) set_iter to_num to_string
                    bk start_time end_time)
       \<and> rows_extracted (extract_table_from_image (Inr example_tokens) set_iter to_num
                           to_string bk start_time end_time) = 2
       \<and> columns_detected (extract_table_from_image (Inr example_tokens) set_iter to_num
                              to_string bk start_time end_time) = 2"
proof -
  let ?rows = "[[''Name'', ''Age''], [''Alice'', ''30''], [''Bob'', ''25'']]"
  have ne: "example_tokens \<noteq> []"
    by (simp add: example_tokens_def)
  have "clean_and_normalize_data set_iter to_num ?rows
      = coerce_columns to_num (replace_empty (grid_as_table ?rows))"
    using clean_uniform [OF assms(1), of ?rows 2] by simp
  also have "\<dots> = \<lparr>df_columns = [''Name'', ''Age''],
                     df_values = [[Str ''Alice'', Num a], [Str ''Bob'', Num b]]\<rparr>"
    using assms(2-4)
    by (simp add: coerce_columns_def coerce_column_def label_positions_def replace_empty_def
        grid_as_table_def column_of_def to_numeric_ignore_def parses_def as_number_def
        upt_rec [of 0] upt_rec [of 1] upt_rec [of 2] upt_rec [of "Suc 0"] Let_def)
  finally have df: "clean_and_normalize_data set_iter to_num ?rows
      = \<lparr>df_columns = [''Name'', ''Age''],
         df_values = [[Str ''Alice'', Num a], [Str ''Bob'', Num b]]\<rparr>" .
  show ?thesis
    by (simp add: extract_table_from_image_tokens [OF ne] detect_example df Let_def)
qed


theorem example_end_to_end_witness:
  "iterates_set remdups
   \<and> digits_to_nat ''30'' = Some 30 \<and> digits_to_nat ''25'' = Some 25
   \<and> digits_to_nat ''Alice'' = None
   \<and> data (extract_table_from_image (Inr example_tokens) remdups digits_to_nat
             example_to_string ''GEMINI_VISION'' 0 1)
       = Some \<lparr>df_columns = [''Name'', ''Age''],
               df_values = [[Str ''Alice'', Num 30], [Str ''Bob'', Num 25]]\<rparr>
   \<and> rows_extracted (extract_table_from_image (Inr example_tokens) remdups digits_to_nat
                       example_to_string ''GEMINI_VISION'' 0 1) = 2"
proof -
  have p: "digits_to_nat ''30'' = Some 30" "digits_to_nat ''25'' = Some 25"
    "digits_to_nat ''Alice'' = None"
    by code_simp+
  from example_end_to_end [OF iterates_set_remdups p,
      of example_to_string "''GEMINI_VISION''" 0 1]
  show ?thesis using p iterates_set_remdups by simp
qed

section \<open>Grids of no row or one row\<close>

lemma coerce_column_no_rows: "df_values df = [] \<Longrightarrow> coerce_column to_num df c = df"
  by (simp add: coerce_column_def column_of_def to_numeric_ignore_def Let_def split: list.splits)

lemma coerce_columns_no_rows:
  assumes "df_values df = []"
  shows "coerce_columns to_num df = df"
proof -
  have "foldl (coerce_column to_num) df ls = df" for ls
    by (induction ls) (simp_all add: coerce_column_no_rows assms)
  then show ?thesis by (simp add: coerce_columns_def)
qed

lemma clean_single_row:
  assumes "iterates_set set_iter"
  shows "clean_and_normalize_data set_iter to_num [row] = \<lparr>df_columns = row, df_values = []\<rparr>"
proof (cases "row = []")
  case True
  have "num_columns_of set_iter [row] = 0"
    using num_columns_of_uniform [OF assms, of "[row]" 0] True by simp
  then show ?thesis
    by (simp add: clean_and_normalize_data_def empty_frame_def True)
next
  case False
  have "clean_and_normalize_data set_iter to_num [row]
      = coerce_columns to_num (replace_empty (grid_as_table [row]))"
    using clean_uniform [OF assms, of "[row]" "length row"] False by simp
  also have "\<dots> = \<lparr>df_columns = row, df_values = []\<rparr>"
    by (simp add: coerce_columns_no_rows replace_empty_def grid_as_table_def)
  finally show ?thesis .
qed

lemma clean_no_row:
  "clean_and_normalize_data set_iter to_num [] = \<lparr>df_columns = [], df_values = []\<rparr>"
  by (simp add: clean_and_normalize_data_def empty_frame_def)

text \<open>
  C7. For every grid with no row or one row, normalization returns a table with a header
  and no data row: the header is the row of a one-row grid, and the header without
  labels (width 0) of the grid without rows. This is no error: the normalizer returns
  the table, and for every token sequence whose grid is such a grid the orchestration
  reports a success carrying that table, with \<open>rows_extracted = 0\<close> and as many columns
  as the header has labels. (A token sequence never gives the grid without rows.)
\<close>

theorem short_grid:
  assumes "iterates_set set_iter" and "length rows \<le> 1"
  shows "clean_and_normalize_data set_iter to_num rows
           = \<lparr>df_columns = (case rows of [] \<Rightarrow> [] | header # rest \<Rightarrow> header),
              df_values = []\<rparr>
       \<and> (text_positions \<noteq> [] \<and> detect_table_structure text_positions = rows \<longrightarrow>
            success (extract_table_from_image (Inr text_positions) set_iter to_num to_string
                       bk start_time end_time)
            \<and> error (extract_table_from_image (Inr text_positions) set_iter to_num to_string
                       bk start_time end_time) = None
            \<and> data (extract_table_from_image (Inr text_positions) set_iter to_num to_string
                       bk start_time end_time)
                = Some \<lparr>df_columns = (case rows of [] \<Rightarrow> [] | header # rest \<Rightarrow> header),
                        df_values = []\<rparr>
            \<and> rows_extracted (extract_table_from_image (Inr text_positions) set_iter to_num
                                to_string bk start_time end_time) = 0
            \<and> columns_detected (extract_table_from_image (Inr text_positions) set_iter to_num
                                  to_string bk start_time end_time)
                = length (case rows of [] \<Rightarrow> [] | header # rest \<Rightarrow> header))"
proof -
  have c: "clean_and_normalize_data set_iter to_num rows
         = \<lparr>df_columns = (case rows of [] \<Rightarrow> [] | header # rest \<Rightarrow> header),
            df_values = []\<rparr>"
  proof (cases rows)
    case Nil
    then show ?thesis by (simp add: clean_no_row)
  next
    case (Cons header rest)
    with assms(2) have "rest = []" by simp
    with Cons show ?thesis
      by (simp add: clean_single_row [OF assms(1)])
  qed
  show ?thesis
  proof (intro conjI impI)
    show "clean_and_normalize_data set_iter to_num rows
         = \<lparr>df_columns = (case rows of [] \<Rightarrow> [] | header # rest \<Rightarrow> header),
            df_values = []\<rparr>"
      by (rule c)
  qed (simp_all add: extract_table_from_image_tokens c Let_def)
qed

theorem short_grid_witness:
  "iterates_set remdups
   \<and> header_only_tokens \<noteq> []
   \<and> detect_table_structure header_only_tokens = [[''Name'', ''Age'']]
   \<and> clean_and_normalize_data remdups digits_to_nat [[''Name'', ''Age'']]
       = \<lparr>df_columns = [''Name'', ''Age''], df_values = []\<rparr>
   \<and> success (extract_table_from_image (Inr header_only_tokens) remdups digits_to_nat
                example_to_string ''GEMINI_VISION'' 0 1)
   \<and> rows_extracted (extract_table_from_image (Inr header_only_tokens) remdups digits_to_nat
                       example_to_string ''GEMINI_VISION'' 0 1) = 0
   \<and> columns_detected (extract_table_from_image (Inr header_only_tokens) remdups
                         digits_to_nat example_to_string ''GEMINI_VISION'' 0 1) = 2
   \<and> clean_and_normalize_data remdups digits_to_nat []
       = \<lparr>df_columns = [], df_values = []\<rparr>"
proof -
  have ne: "header_only_tokens \<noteq> []"
    by (simp add: header_only_tokens_def)
  have d: "detect_table_structure header_only_tokens = [[''Name'', ''Age'']]"
    unfolding header_only_tokens_def by code_simp
  have l: "length [[''Name'', ''Age'']] \<le> 1" by simp
  note one = short_grid [OF iterates_set_remdups l, of digits_to_nat header_only_tokens
      example_to_string "''GEMINI_VISION''" 0 1]
  have l0: "length ([] :: string list list) \<le> 1" by simp
  note none = short_grid [OF iterates_set_remdups l0, of digits_to_nat, THEN conjunct1]
  from one none ne d iterates_set_remdups show ?thesis
    by simp
qed

section \<open>Numeric coercion, column by column\<close>

lemma frame_cells_text_or_missing:
  assumes "list_all (\<lambda>r. j < length r) rows"
  shows "list_all (\<lambda>c. is_text c \<or> c = NaN) (column_of j (frame_of_normalized rows))"
  using assms
  by (auto simp: frame_of_normalized_def column_of_def replace_empty_def Let_def list_all_iff
      is_text_def dest!: in_set_dropD)

text \<open>
  Where the label of a column stands once in the header, the loop coerces as a whole or
  not at all: if every non-missing value parses the column holds numbers and missing
  markers only, and if one does not parse every cell stays as it was, text or missing.
\<close>

lemma coercion_unique_label:
  fixes to_num :: "string \<Rightarrow> 'a option"
  defines "df \<equiv> \<lambda>w rows. frame_of_normalized (map (normalize_row w) rows) :: 'a dataframe"
  assumes "rows \<noteq> []" and "num_columns_of set_iter rows = w" and "j < w"
    and "count_list (df_columns (df w rows)) (df_columns (df w rows) ! j) = 1"
  shows "df_columns (clean_and_normalize_data set_iter to_num rows) = df_columns (df w rows)"
    and "list_all (parses to_num) (column_of j (df w rows)) \<Longrightarrow>
         column_of j (clean_and_normalize_data set_iter to_num rows)
           = map (as_number to_num) (column_of j (df w rows))
         \<and> list_all (\<lambda>c. \<not> is_text c)
              (column_of j (clean_and_normalize_data set_iter to_num rows))"
    and "\<not> list_all (parses to_num) (column_of j (df w rows)) \<Longrightarrow>
         column_of j (clean_and_normalize_data set_iter to_num rows) = column_of j (df w rows)
         \<and> list_all (\<lambda>c. is_text c \<or> c = NaN)
              (column_of j (clean_and_normalize_data set_iter to_num rows))"
proof -
  have r: "rectangular (df w rows)"
    unfolding df_def by (rule rectangular_frame_of_normalized) (rule assms)
  have w: "length (df_columns (df w rows)) = w"
    using assms(2) by (cases rows) (simp_all add: df_def frame_of_normalized_def
        replace_empty_def Let_def)
  have res: "clean_and_normalize_data set_iter to_num rows = coerce_columns to_num (df w rows)"
    using assms(2-4) by (simp add: df_def clean_and_normalize_data_def Let_def)
  have j: "j < length (df_columns (df w rows))"
    using assms(4) w by simp
  have t: "list_all (\<lambda>c. is_text c \<or> c = NaN) (column_of j (df w rows))"
    unfolding df_def
    by (rule frame_cells_text_or_missing) (simp add: list_all_iff assms(4))
  note c = coerce_columns_column [OF r j, of to_num]
  show "df_columns (clean_and_normalize_data set_iter to_num rows) = df_columns (df w rows)"
    by (simp add: res)
  show "column_of j (clean_and_normalize_data set_iter to_num rows)
           = map (as_number to_num) (column_of j (df w rows))
         \<and> list_all (\<lambda>c. \<not> is_text c)
              (column_of j (clean_and_normalize_data set_iter to_num rows))"
    if "list_all (parses to_num) (column_of j (df w rows))"
    using that c assms(5) by (simp add: res list_all_iff parses_as_number)
  show "column_of j (clean_and_normalize_data set_iter to_num rows) = column_of j (df w rows)
         \<and> list_all (\<lambda>c. is_text c \<or> c = NaN)
              (column_of j (clean_and_normalize_data set_iter to_num rows))"
    if "\<not> list_all (parses to_num) (column_of j (df w rows))"
    using that c t by (simp add: res)
qed

text \<open>
  C6 and the code. The claim wants every column whose non-missing values all parse to
  be stored as numbers. The code departs from it on a header with a repeated label:
  for the eight tokens of \<open>repeated_label_tokens\<close> the grid is a, a / 10, x / 20, y /
  30, z; each of "10", "20", "30" parses, and yet the first column of the table returned
  holds the three strings, because \<open>df[col]\<close> selects both columns labelled a, on which
  \<open>pd.to_numeric\<close> raises. The same column under the header a, b is coerced to the
  numbers 10, 20, 30.
\<close>

theorem coercion_skips_repeated_label:
  "detect_table_structure repeated_label_tokens
     = [[''a'', ''a''], [''10'', ''x''], [''20'', ''y''], [''30'', ''z'']]
   \<and> list_all (parses digits_to_nat) [Str ''10'', Str ''20'', Str ''30'']
   \<and> data (extract_table_from_image (Inr repeated_label_tokens) remdups digits_to_nat
             example_to_string ''GEMINI_VISION'' 0 1)
       = Some \<lparr>df_columns = [''a'', ''a''],
               df_values = [[Str ''10'', Str ''x''], [Str ''20'', Str ''y''],
                            [Str ''30'', Str ''z'']]\<rparr>
   \<and> clean_and_normalize_data remdups digits_to_nat
        [[''a'', ''b''], [''10'', ''x''], [''20'', ''y''], [''30'', ''z'']]
       = \<lparr>df_columns = [''a'', ''b''],
          df_values = [[Num 10, Str ''x''], [Num 20, Str ''y''], [Num 30, Str ''z'']]\<rparr>"
  unfolding repeated_label_tokens_def by code_simp

section \<open>Grids that are rectangular already\<close>

lemma coerce_column_length [simp]:
  "length (df_values (coerce_column to_num df c)) = length (df_values df)"
  by (simp add: coerce_column_def Let_def column_of_def split: list.splits)

lemma coerce_columns_shape:
  assumes "rectangular df"
  shows "rectangular (coerce_columns to_num df)
       \<and> length (df_values (coerce_columns to_num df)) = length (df_values df)"
proof -
  have "rectangular d \<Longrightarrow> rectangular (foldl (coerce_column to_num) d ls)
        \<and> length (df_values (foldl (coerce_column to_num) d ls)) = length (df_values d)"
    for d ls
    by (induction ls arbitrary: d) (simp_all add: coerce_column_rectangular)
  with assms show ?thesis by (simp add: coerce_columns_def)
qed

lemma map2_update_same: "map2 (\<lambda>r v. r[j := v]) rs (map (\<lambda>r. r ! j) rs) = rs"
  by (induction rs) simp_all

lemma coerce_column_unparsed:
  assumes "rectangular df"
    and "list_all (list_all (\<lambda>c. \<not> parses to_num c)) (df_values df)"
  shows "coerce_column to_num df c = df"
proof (cases "\<exists>j. label_positions (df_columns df) c = [j]")
  case False
  then show ?thesis
    by (auto simp: coerce_column_def split: list.splits)
next
  case True
  then obtain j where j: "label_positions (df_columns df) c = [j]" by blast
  then have jl: "j < length (df_columns df)"
    by (simp add: label_positions_single)
  have "to_numeric_ignore to_num (column_of j df) = column_of j df"
  proof (cases "df_values df")
    case Nil
    then show ?thesis by (simp add: column_of_def to_numeric_ignore_def)
  next
    case (Cons r rs)
    with assms jl have "j < length r" and "list_all (\<lambda>c. \<not> parses to_num c) r"
      by (simp_all add: rectangular_def)
    then have "\<not> parses to_num (r ! j)"
      by (simp add: list_all_length)
    then have "\<not> list_all (parses to_num) (column_of j df)"
      by (simp add: column_of_def Cons)
    then show ?thesis by (simp add: to_numeric_ignore_def)
  qed
  then show ?thesis
    by (simp add: coerce_column_def j Let_def column_of_def map2_update_same)
qed

lemma coerce_columns_unparsed:
  assumes "rectangular df"
    and "list_all (list_all (\<lambda>c. \<not> parses to_num c)) (df_values df)"
  shows "coerce_columns to_num df = df"
proof -
  have "foldl (coerce_column to_num) df ls = df" for ls
    by (induction ls) (simp_all add: coerce_column_unparsed [OF assms])
  then show ?thesis by (simp add: coerce_columns_def)
qed

lemma replace_empty_same:
  assumes "list_all (list_all (\<lambda>s. s \<noteq> [])) (drop 1 rows)"
  shows "replace_empty (grid_as_table rows) = grid_as_table rows"
proof -
  have "map (map (\<lambda>c. if c = Str [] then NaN else c)) (map (map Str) (drop 1 rows))
      = map (map Str) (drop 1 rows)"
    using assms by (auto simp: list_all_iff)
  then show ?thesis
    by (simp add: replace_empty_def grid_as_table_def)
qed

lemma rectangular_grid_as_table:
  assumes "rows \<noteq> []" and "list_all (\<lambda>r. length r = w) rows"
  shows "rectangular (replace_empty (grid_as_table rows))"
  using assms
  by (cases rows) (auto simp: rectangular_def replace_empty_def grid_as_table_def list_all_iff)

text \<open>
  The claim C8, that normalizing a grid whose rows all have the width \<open>W\<close> returns a
  table identical to it, fails: the empty cell of the grid item / "" comes back as the
  missing marker, and the cell "1" of the grid qty / "1" comes back as the number 1.
\<close>

theorem uniform_grid_counterexample:
  "df_values (clean_and_normalize_data remdups digits_to_nat [[''item''], ['''']]) = [[NaN]]
   \<and> df_values (grid_as_table [[''item''], ['''']] :: nat dataframe) = [[Str '''']]
   \<and> df_values (clean_and_normalize_data remdups digits_to_nat [[''qty''], [''1'']])
       = [[Num 1]]
   \<and> df_values (grid_as_table [[''qty''], [''1'']] :: nat dataframe) = [[Str ''1'']]"
  by code_simp

text \<open>
  C8, amended. For every grid whose rows all have the same width \<open>W > 0\<close>, normalization
  neither pads nor truncates: the table is the grid read cell for cell (first row as
  header, the other rows as data rows of \<open>W\<close> cells) on which only the replacement of
  empty strings by the missing marker and the column-wide numeric coercion have acted.
  It is identical to the grid when no data cell is empty and no data cell parses as a
  number.
\<close>

theorem uniform_grid:
  assumes "iterates_set set_iter" and "rows \<noteq> []" and "0 < w"
    and "list_all (\<lambda>r. length r = w) rows"
  shows "clean_and_normalize_data set_iter to_num rows
           = coerce_columns to_num (replace_empty (grid_as_table rows))
       \<and> df_columns (clean_and_normalize_data set_iter to_num rows) = rows ! 0
       \<and> length (df_values (clean_and_normalize_data set_iter to_num rows)) = length rows - 1
       \<and> rectangular (clean_and_normalize_data set_iter to_num rows)
       \<and> (list_all (list_all (\<lambda>s. s \<noteq> '''' \<and> to_num s = None)) (drop 1 rows)
            \<longrightarrow> clean_and_normalize_data set_iter to_num rows = grid_as_table rows)"
proof -
  let ?df = "replace_empty (grid_as_table rows) :: 'a dataframe"
  have c: "clean_and_normalize_data set_iter to_num rows = coerce_columns to_num ?df"
    by (rule clean_uniform [OF assms])
  have r: "rectangular ?df"
    by (rule rectangular_grid_as_table [OF assms(2,4)])
  have l: "length (df_values ?df) = length rows - 1"
    by (simp add: replace_empty_def grid_as_table_def)
  have h: "df_columns ?df = rows ! 0"
    by (simp add: replace_empty_def grid_as_table_def)
  have i: "coerce_columns to_num ?df = grid_as_table rows"
    if a: "list_all (list_all (\<lambda>s. s \<noteq> '''' \<and> to_num s = None)) (drop 1 rows)"
  proof -
    from a have "list_all (list_all (\<lambda>s. s \<noteq> [])) (drop 1 rows)"
      by (auto simp: list_all_iff)
    then have e: "?df = grid_as_table rows"
      by (rule replace_empty_same)
    from a have "list_all (list_all (\<lambda>c. \<not> parses to_num c)) (df_values ?df)"
      unfolding e by (auto simp: grid_as_table_def list_all_iff parses_def)
    from coerce_columns_unparsed [OF r this] e show ?thesis by simp
  qed
  from coerce_columns_shape [OF r, of to_num] l h i show ?thesis
    unfolding c by simp
qed

theorem uniform_grid_witness:
  "iterates_set remdups
   \<and> clean_and_normalize_data remdups digits_to_nat [[''Name'', ''City''], [''Alice'', ''Paris'']]
       = grid_as_table [[''Name'', ''City''], [''Alice'', ''Paris'']]
   \<and> df_columns (clean_and_normalize_data remdups digits_to_nat
        [[''Name'', ''City''], [''Alice'', ''Paris'']]) = [''Name'', ''City'']"
proof -
  let ?rows = "[[''Name'', ''City''], [''Alice'', ''Paris'']]"
  have p: "digits_to_nat ''Alice'' = None" "digits_to_nat ''Paris'' = None"
    by code_simp+
  have a: "list_all (list_all (\<lambda>s. s \<noteq> '''' \<and> digits_to_nat s = None)) (drop 1 ?rows)"
    by (simp add: p)
  have prem: "?rows \<noteq> []" "0 < (2::nat)" "list_all (\<lambda>r. length r = 2) ?rows"
    by simp_all
  note u = uniform_grid [OF iterates_set_remdups prem, of digits_to_nat]
  have "clean_and_normalize_data remdups digits_to_nat ?rows = grid_as_table ?rows"
    by (rule mp [OF u [THEN conjunct2, THEN conjunct2, THEN conjunct2, THEN conjunct2] a])
  moreover have "df_columns (clean_and_normalize_data remdups digits_to_nat ?rows)
      = ?rows ! 0"
    by (rule u [THEN conjunct2, THEN conjunct1])
  ultimately show ?thesis using iterates_set_remdups by simp
qed

section \<open>Realignment on the column anchors\<close>

lemma foldl_min_first:
  fixes key :: "'a \<Rightarrow> 'k::linorder"
  defines "step \<equiv> \<lambda>best v. if key v < key best then v else best"
  shows "\<exists>pre post. b # vs = pre @ foldl step b vs # post
     \<and> (\<forall>v\<in>set pre. key (foldl step b vs) < key v)
     \<and> (\<forall>v\<in>set post. key (foldl step b vs) \<le> key v)"
proof (induction vs arbitrary: b)
  case Nil
  show ?case by (rule exI [of _ "[]"]) simp
next
  case (Cons v vs)
  show ?case
  proof (cases "key v < key b")
    case True
    define r where "r = foldl step v vs"
    have fr: "foldl step b (v # vs) = r"
      using True by (simp add: r_def step_def)
    from Cons [of v] obtain pre post where
      d: "v # vs = pre @ r # post"
      and l: "\<forall>u\<in>set pre. key r < key u"
      and r: "\<forall>u\<in>set post. key r \<le> key u"
      unfolding r_def by blast
    have "key r \<le> key v"
    proof (cases pre)
      case Nil
      with d show ?thesis by simp
    next
      case (Cons a pre')
      with d l show ?thesis by auto
    qed
    with True have rb: "key r < key b" by simp
    have "b # v # vs = (b # pre) @ r # post"
      using d by simp
    moreover have "\<forall>u\<in>set (b # pre). key r < key u"
      using l rb by simp
    ultimately show ?thesis
      unfolding fr using r by blast
  next
    case False
    define r where "r = foldl step b vs"
    have fr: "foldl step b (v # vs) = r"
      using False by (simp add: r_def step_def)
    from Cons [of b] obtain pre post where
      d: "b # vs = pre @ r # post"
      and l: "\<forall>u\<in>set pre. key r < key u"
      and r: "\<forall>u\<in>set post. key r \<le> key u"
      unfolding r_def by blast
    show ?thesis
    proof (cases pre)
      case Nil
      with d have rb: "r = b" and p: "post = vs" by simp_all
      have "b # v # vs = [] @ r # (v # vs)"
        by (simp add: rb)
      moreover have "\<forall>u\<in>set (v # vs). key r \<le> key u"
        using r False by (simp add: rb p)
      ultimately show ?thesis
        unfolding fr by (metis empty_iff empty_set)
    next
      case (Cons a pre')
      with d have a: "a = b" and vs: "vs = pre' @ r # post" by simp_all
      from l Cons a have "key r < key b" by simp
      with False have rv: "key r < key v" by simp
      have "b # v # vs = (b # v # pre') @ r # post"
        using vs by simp
      moreover have "\<forall>u\<in>set (b # v # pre'). key r < key u"
        using l rv Cons a by simp
      ultimately show ?thesis
        unfolding fr using r by blast
    qed
  qed
qed

lemma nearest_col_nearest:
  assumes "anchors \<noteq> []"
  shows "nearest_col anchors cell_x < length anchors
       \<and> (\<forall>j<length anchors. \<bar>of_int cell_x - anchors ! nearest_col anchors cell_x\<bar>
                                 \<le> \<bar>of_int cell_x - anchors ! j\<bar>)
       \<and> (\<forall>j<nearest_col anchors cell_x.
             \<bar>of_int cell_x - anchors ! nearest_col anchors cell_x\<bar>
               < \<bar>of_int cell_x - anchors ! j\<bar>)"
proof -
  define key :: "nat \<Rightarrow> rat" where "key = (\<lambda>i. \<bar>of_int cell_x - anchors ! i\<bar>)"
  define n where "n = length anchors"
  define k where "k = nearest_col anchors cell_x"
  from assms have n: "0 < n" by (simp add: n_def)
  then have up: "[0..<n] = 0 # [1..<n]"
    by (simp add: upt_conv_Cons)
  have k: "k = foldl (\<lambda>best v. if key v < key best then v else best) 0 [1..<n]"
    by (simp add: k_def nearest_col_def py_min_key_def key_def n_def [symmetric] up)
  from foldl_min_first [of 0 "[1..<n]" key] obtain pre post where
    d: "[0..<n] = pre @ k # post"
    and l: "\<forall>v\<in>set pre. key k < key v"
    and r: "\<forall>v\<in>set post. key k \<le> key v"
    unfolding k [symmetric] up [symmetric] by blast
  from d have "k \<in> set [0..<n]" by simp
  then have kn: "k < n" by simp
  have len: "length pre < n"
    using arg_cong [OF d, of length] by simp
  have "[0..<n] ! length pre = k"
    unfolding d by simp
  with len have lp: "length pre = k" by simp
  have "take k [0..<n] = pre"
    unfolding d using lp by simp
  with kn have pre: "pre = [0..<k]" by (simp add: take_upt)
  have "drop (Suc k) [0..<n] = post"
    unfolding d using lp by simp
  then have post: "post = [Suc k..<n]" by (simp add: drop_upt)
  have lt: "key k < key j" if "j < k" for j
    using l pre that by auto
  have le: "key k \<le> key j" if "j < n" for j
  proof -
    consider "j < k" | "j = k" | "k < j" by linarith
    then show ?thesis
    proof cases
      case 1
      from lt [OF 1] show ?thesis by simp
    next
      case 2
      then show ?thesis by simp
    next
      case 3
      with r post that show ?thesis by auto
    qed
  qed
  from lt le show ?thesis
    using kn unfolding k_def [symmetric] n_def [symmetric] key_def by blast
qed


lemma join_spaces_snoc:
  "cs \<noteq> [] \<Longrightarrow> join_spaces (cs @ [c]) = join_spaces cs @ '' '' @ c"
  by (induction cs rule: join_spaces.induct) simp_all

lemma join_spaces_eq_Nil:
  "list_all (\<lambda>c. c \<noteq> []) cs \<Longrightarrow> join_spaces cs = [] \<longleftrightarrow> cs = []"
  by (induction cs rule: join_spaces.induct) simp_all

lemma anchor_of_cell_Some_text:
  assumes "list_all (\<lambda>tp. tok_text tp \<noteq> []) tps" and "anchor_of_cell anchors tps c = Some k"
  shows "c \<noteq> []"
proof -
  from assms(2) obtain tp where "find (\<lambda>tp. tok_text tp = c) tps = Some tp"
    by (auto simp: anchor_of_cell_def)
  then have "tp \<in> set tps" and "tok_text tp = c"
    by (auto simp: find_Some_iff)
  with assms(1) show ?thesis by (auto simp: list_all_iff)
qed

lemma aligned_row_spec_nth:
  "k < length anchors \<Longrightarrow>
   aligned_row_spec anchors tps row ! k
   = join_spaces (filter (\<lambda>c. anchor_of_cell anchors tps c = Some k) row)"
  by (simp add: aligned_row_spec_def)

lemma length_aligned_row_spec [simp]:
  "length (aligned_row_spec anchors tps row) = length anchors"
  by (simp add: aligned_row_spec_def)

lemma place_cell_spec:
  assumes "anchors \<noteq> []" and "list_all (\<lambda>tp. tok_text tp \<noteq> []) tps"
  shows "place_cell anchors tps (aligned_row_spec anchors tps cs) c
       = aligned_row_spec anchors tps (cs @ [c])"
proof (cases "find (\<lambda>tp. tok_text tp = c) tps")
  case None
  then have "anchor_of_cell anchors tps c = None"
    by (simp add: anchor_of_cell_def)
  then have "aligned_row_spec anchors tps (cs @ [c]) = aligned_row_spec anchors tps cs"
    by (simp add: aligned_row_spec_def)
  with None show ?thesis by (simp add: place_cell_def)
next
  case (Some tp)
  define k where "k = nearest_col anchors (tok_x tp)"
  define old where "old = filter (\<lambda>c'. anchor_of_cell anchors tps c' = Some k) cs"
  have kn: "k < length anchors"
    unfolding k_def using nearest_col_nearest [OF assms(1)] by blast
  have a: "anchor_of_cell anchors tps c = Some k"
    by (simp add: anchor_of_cell_def Some k_def)
  have "list_all (\<lambda>c. c \<noteq> []) old"
    unfolding old_def
    by (auto simp: list_all_iff dest: anchor_of_cell_Some_text [OF assms(2)])
  then have e: "join_spaces old = [] \<longleftrightarrow> old = []"
    by (rule join_spaces_eq_Nil)
  have cur: "aligned_row_spec anchors tps cs ! k = join_spaces old"
    by (simp add: aligned_row_spec_nth kn old_def)
  have new: "join_spaces (old @ [c])
           = (if join_spaces old = [] then c else join_spaces old @ '' '' @ c)"
    using e by (simp add: join_spaces_snoc)
  have p: "place_cell anchors tps (aligned_row_spec anchors tps cs) c
         = (aligned_row_spec anchors tps cs)[k := join_spaces (old @ [c])]"
    by (simp add: place_cell_def Some k_def [symmetric] Let_def cur new)
  show ?thesis
    unfolding p
  proof (rule nth_equalityI)
    show "length ((aligned_row_spec anchors tps cs)[k := join_spaces (old @ [c])])
        = length (aligned_row_spec anchors tps (cs @ [c]))"
      by simp
  next
    fix i
    assume "i < length ((aligned_row_spec anchors tps cs)[k := join_spaces (old @ [c])])"
    then have i: "i < length anchors" by simp
    show "(aligned_row_spec anchors tps cs)[k := join_spaces (old @ [c])] ! i
        = aligned_row_spec anchors tps (cs @ [c]) ! i"
      using i a by (cases "i = k") (auto simp: aligned_row_spec_nth old_def)
  qed
qed

lemma align_row_spec:
  assumes "anchors \<noteq> []" and "list_all (\<lambda>tp. tok_text tp \<noteq> []) tps"
  shows "align_row anchors tps row = aligned_row_spec anchors tps row"
proof -
  have "foldl (place_cell anchors tps) (replicate (length anchors) []) row
      = aligned_row_spec anchors tps row"
  proof (induction row rule: rev_induct)
    case Nil
    show ?case
      by (simp add: aligned_row_spec_def map_replicate_const)
  next
    case (snoc c cs)
    then show ?case
      by (simp add: place_cell_spec [OF assms])
  qed
  then show ?thesis by (simp add: align_row_def)
qed


lemma column_anchors_None:
  "column_anchors xs = None \<longleftrightarrow> length xs < 2"
  by (cases xs) (auto simp: column_anchors_def gaps_of_eq_Nil Let_def split: prod.splits)

text \<open>
  C5. With token texts that are not empty (a token's text is a non-empty string), column
  realignment is applied if and only if anchors were computed, their number is greater
  than 1 and it is less than the number of cells of the first row; no anchors are
  computed only for a single token. When it is applied, every output row has one cell
  per anchor, and the cell of an anchor is the texts of the row's cells assigned to that
  anchor, in row order, joined by single spaces; a cell is assigned by the first token
  with equal text, to the anchor nearest to that token's \<open>x\<close> in absolute distance (the
  leftmost such anchor when two are equally near). When it is not applied, the rows
  of the row clustering are returned unchanged.
\<close>

theorem realignment_refines_spec:
  assumes "text_positions \<noteq> []"
    and "list_all (\<lambda>tp. tok_text tp \<noteq> '''') text_positions"
  shows "(column_anchors (map tok_x text_positions) = None \<longleftrightarrow> length text_positions = 1)
       \<and> (case column_anchors (map tok_x text_positions) of
             None \<Rightarrow> detect_table_structure text_positions = row_clustering text_positions
           | Some anchors \<Rightarrow>
               if 1 < length anchors \<and> length anchors < length (row_clustering text_positions ! 0)
               then detect_table_structure text_positions
                      = map (aligned_row_spec anchors text_positions)
                          (row_clustering text_positions)
                    \<and> list_all (\<lambda>row. length row = length anchors)
                          (detect_table_structure text_positions)
               else detect_table_structure text_positions = row_clustering text_positions)
       \<and> (anchors \<noteq> [] \<longrightarrow>
             nearest_col anchors cell_x < length anchors
             \<and> (j < length anchors \<longrightarrow>
                  \<bar>of_int cell_x - anchors ! nearest_col anchors cell_x\<bar>
                    \<le> \<bar>of_int cell_x - anchors ! j\<bar>)
             \<and> (j < nearest_col anchors cell_x \<longrightarrow>
                  \<bar>of_int cell_x - anchors ! nearest_col anchors cell_x\<bar>
                    < \<bar>of_int cell_x - anchors ! j\<bar>))"
proof -
  have ne: "row_clustering text_positions \<noteq> []"
    by (rule row_clustering_nonempty) (rule assms)
  have n: "column_anchors (map tok_x text_positions) = None \<longleftrightarrow> length text_positions = 1"
    using assms(1) by (cases text_positions) (auto simp: column_anchors_None)
  have d: "case column_anchors (map tok_x text_positions) of
             None \<Rightarrow> detect_table_structure text_positions = row_clustering text_positions
           | Some anchors \<Rightarrow>
               if 1 < length anchors \<and> length anchors < length (row_clustering text_positions ! 0)
               then detect_table_structure text_positions
                      = map (aligned_row_spec anchors text_positions)
                          (row_clustering text_positions)
                    \<and> list_all (\<lambda>row. length row = length anchors)
                          (detect_table_structure text_positions)
               else detect_table_structure text_positions = row_clustering text_positions"
  proof (cases "column_anchors (map tok_x text_positions)")
    case None
    with assms(1) ne show ?thesis
      by (simp add: detect_table_structure_def Let_def)
  next
    case (Some cc)
    show ?thesis
    proof (cases "1 < length cc \<and> length cc < length (row_clustering text_positions ! 0)")
      case False
      with Some assms(1) ne show ?thesis
        by (auto simp: detect_table_structure_def Let_def)
    next
      case True
      then have "cc \<noteq> []" by auto
      then have "align_row cc text_positions = aligned_row_spec cc text_positions"
        using assms(2) by (intro ext align_row_spec) simp_all
      with True Some assms(1) ne show ?thesis
        by (simp add: detect_table_structure_def list_all_iff Let_def)
    qed
  qed
  from n d nearest_col_nearest [of anchors cell_x] show ?thesis
    by blast
qed

theorem realignment_refines_spec_witness:
  "realigned_tokens \<noteq> []
   \<and> list_all (\<lambda>tp. tok_text tp \<noteq> '''') realigned_tokens
   \<and> column_anchors (map tok_x realigned_tokens) = Some [13 / 2, 100, 399 / 2]
   \<and> row_clustering realigned_tokens = [[''a'', ''b'', ''c'', ''d'', ''e''], [''f'', ''g'']]
   \<and> detect_table_structure realigned_tokens
       = map (aligned_row_spec [13 / 2, 100, 399 / 2] realigned_tokens)
           [[''a'', ''b'', ''c'', ''d'', ''e''], [''f'', ''g'']]
   \<and> map (aligned_row_spec [13 / 2, 100, 399 / 2] realigned_tokens)
           [[''a'', ''b'', ''c'', ''d'', ''e''], [''f'', ''g'']]
       = [[''a b c'', ''d'', ''e''], [''f'', '''', ''g'']]"
proof -
  have ne: "realigned_tokens \<noteq> []"
    by (simp add: realigned_tokens_def)
  have tx: "list_all (\<lambda>tp. tok_text tp \<noteq> '''') realigned_tokens"
    by (simp add: realigned_tokens_def tok_text_def)
  have ca: "column_anchors (map tok_x realigned_tokens) = Some [13 / 2, 100, 399 / 2]"
    unfolding realigned_tokens_def by code_simp
  have rc: "row_clustering realigned_tokens
          = [[''a'', ''b'', ''c'', ''d'', ''e''], [''f'', ''g'']]"
    unfolding realigned_tokens_def by code_simp
  have sp: "map (aligned_row_spec [13 / 2, 100, 399 / 2] realigned_tokens)
              [[''a'', ''b'', ''c'', ''d'', ''e''], [''f'', ''g'']]
          = [[''a b c'', ''d'', ''e''], [''f'', '''', ''g'']]"
    unfolding realigned_tokens_def by code_simp
  from realignment_refines_spec [OF ne tx, THEN conjunct2, THEN conjunct1]
  have "detect_table_structure realigned_tokens
       = map (aligned_row_spec [13 / 2, 100, 399 / 2] realigned_tokens)
           [[''a'', ''b'', ''c'', ''d'', ''e''], [''f'', ''g'']]"
    unfolding ca rc by simp
  with ne tx ca rc sp show ?thesis by blast
qed

end
